theory Spec2Isabelle
  imports Complex_Main "HOL-Library.Word"
begin

unbundle bit_operations_syntax

section \<open>The rootfinder node of CasADi (casadi/core/function/rootfinder.cpp)\<close>

text \<open>
  The node wraps a residual oracle \<open>F(z, p) \<rightarrow> (r, aux...)\<close>. One input index
  (\<open>iin_\<close>) is the unknown, one output index (\<open>iout_\<close>) is the residual. The file
  embeds \<open>Rootfinder::init\<close>, \<open>Rootfinder::sp_fwd\<close>, \<open>Rootfinder::sp_rev\<close>,
  \<open>Rootfinder::forward\<close> and \<open>Rootfinder::reverse\<close>. The collaborators whose code is
  not part of rootfinder.cpp (the oracle, the Jacobian function, the linear solver, the
  symbolic matrix type \<open>MX\<close>) are parameters of the embedding.
\<close>

subsection \<open>Errors\<close>

text \<open>
  Each \<open>casadi_assert_message\<close> of \<open>init\<close> is one constructor. \<open>OutOfRange\<close> is the
  \<open>std::out_of_range\<close> of \<open>vector::at\<close>. \<open>BadAccess\<close> stands for an access that C++
  leaves undefined (\<open>operator[]\<close> past the end, \<open>front()\<close> of an empty vector,
  copying from or into a buffer that is too short): the model stops there instead of
  inventing a value. \<open>External\<close> is an exception raised inside a collaborator.
\<close>

datatype error =
    ImplicitInputNotInRange
  | ImplicitOutputNotInRange
  | ResidualNotDenseVector
  | UnknownNotDenseVector
  | DimensionMismatch nat nat
  | StructuralSingularity nat nat
  | ConstraintLength nat nat
  | OutOfRange
  | BadAccess
  | External string

subsection \<open>Sparsity patterns\<close>

record sparsity =
  size1 :: nat
  size2 :: nat
  nonzeros :: "(nat \<times> nat) list"

text \<open>
  Modelled from the spec: the class \<open>Sparsity\<close> is not in the sources at hand. The spec
  describes a pattern as a set of (row, col) nonzero positions of a given size, the unknown
  and the residual as dense column vectors, and structural non-singularity as the existence
  of a perfect matching between rows and columns; the structural rank is the size of a
  largest matching.
\<close>

definition nnz :: "sparsity \<Rightarrow> nat" where
  "nnz sp = length (nonzeros sp)"

definition is_dense :: "sparsity \<Rightarrow> bool" where
  "is_dense sp = (nnz sp = size1 sp * size2 sp)"

definition is_column :: "sparsity \<Rightarrow> bool" where
  "is_column sp = (size2 sp = 1)"

definition matching :: "(nat \<times> nat) list \<Rightarrow> bool" where
  "matching es = (distinct (map fst es) \<and> distinct (map snd es))"

definition matchings :: "sparsity \<Rightarrow> (nat \<times> nat) list list" where
  "matchings sp = filter matching (subseqs (nonzeros sp))"

definition sprank :: "sparsity \<Rightarrow> nat" where
  "sprank sp = fold max (map length (matchings sp)) 0"

definition has_perfect_matching :: "sparsity \<Rightarrow> bool" where
  "has_perfect_matching sp =
     list_ex (\<lambda>es. length es = size1 sp \<and> length es = size2 sp) (matchings sp)"

definition is_singular :: "sparsity \<Rightarrow> bool" where
  "is_singular sp = (\<not> has_perfect_matching sp)"

text \<open>A pattern is well formed when its positions are distinct and inside the matrix.\<close>

definition sparsity_ok :: "sparsity \<Rightarrow> bool" where
  "sparsity_ok sp =
     (distinct (nonzeros sp) \<and>
      list_all (\<lambda>(r, c). r < size1 sp \<and> c < size2 sp) (nonzeros sp))"

subsection \<open>Setup: \<open>Rootfinder::init\<close>\<close>

text \<open>
  An entry of the option dictionary, with the key as the constructor and the value at the
  type the code converts it to. A null \<open>Function\<close> is \<open>None\<close>. Keys that \<open>init\<close>
  does not read are \<open>OtherOption\<close>. The dictionary is a list of entries, read in
  order; in a \<open>std::map\<close> every key occurs once, so that each member is assigned at
  most once. Option indices are C \<open>int\<close>s and are only compared; counts and sizes are
  natural numbers.
\<close>

text \<open>
  Work vector sizes are \<open>size_t\<close>, taken at 64 bits: \<open>max\<close> compares them unsigned,
  \<open>+\<close> and \<open>*\<close> wrap.
\<close>

type_synonym size_t = "64 word"

record func =
  fn_sparsity_out :: "sparsity list"
  fn_sz_w :: size_t

datatype 'd opt =
    ImplicitInput int
  | ImplicitOutput int
  | JacobianFunction "func option"
  | LinearSolverOptions 'd
  | LinearSolver string
  | Constraints "int list"
  | OtherOption string

text \<open>What \<open>init\<close> asks of the oracle, of its base class and of the linear solver plugin.\<close>

record ('d, 'l) setup_env =
  oracle_sparsity_in :: "sparsity list"
  oracle_sparsity_out :: "sparsity list"
  oracle_sz_w :: size_t
  oracle_function_init :: "'d opt list \<Rightarrow> error option"
  oracle_jacobian :: "nat \<Rightarrow> nat \<Rightarrow> error + func"
  linsol_create :: "string \<Rightarrow> 'd \<Rightarrow> error + 'l"
  empty_dict :: 'd

text \<open>The temporaries and members that the option loop of \<open>init\<close> assigns.\<close>

record 'd options =
  o_iin :: int
  o_iout :: int
  o_jac :: "func option"
  o_linear_solver_options :: 'd
  o_linear_solver :: string
  o_u_c :: "int list"

fun read_option :: "'d opt \<Rightarrow> 'd options \<Rightarrow> 'd options" where
  "read_option (ImplicitInput i) s = s\<lparr>o_iin := i\<rparr>"
| "read_option (ImplicitOutput i) s = s\<lparr>o_iout := i\<rparr>"
| "read_option (JacobianFunction f) s = s\<lparr>o_jac := f\<rparr>"
| "read_option (LinearSolverOptions d) s = s\<lparr>o_linear_solver_options := d\<rparr>"
| "read_option (LinearSolver n) s = s\<lparr>o_linear_solver := n\<rparr>"
| "read_option (Constraints c) s = s\<lparr>o_u_c := c\<rparr>"
| "read_option (OtherOption k) s = s"

text \<open>
  The defaults: the constructor sets \<open>iin_ = 0\<close> and \<open>iout_ = 0\<close>, \<open>u_c_\<close> starts
  empty, \<open>init\<close> starts from the solver \<open>csparse\<close>, an empty dictionary and a null
  Jacobian function.
\<close>

definition default_options :: "('d, 'l) setup_env \<Rightarrow> 'd options" where
  "default_options E =
     \<lparr>o_iin = 0, o_iout = 0, o_jac = None,
      o_linear_solver_options = empty_dict E, o_linear_solver = ''csparse'', o_u_c = []\<rparr>"

definition read_options :: "('d, 'l) setup_env \<Rightarrow> 'd opt list \<Rightarrow> 'd options" where
  "read_options E opts = fold read_option opts (default_options E)"

text \<open>The members of the node once \<open>init\<close> has returned.\<close>

record 'l rootfinder =
  iin :: nat
  iout :: nat
  n :: nat
  u_c :: "int list"
  jac_f_z :: func
  sp_jac :: sparsity
  linsol :: 'l
  sz_w :: size_t

definition get_jacobian :: "('d, 'l) setup_env \<Rightarrow> 'd options \<Rightarrow> error + func" where
  "get_jacobian E s =
     (case o_jac s of
        None \<Rightarrow> oracle_jacobian E (nat (o_iin s)) (nat (o_iout s))
      | Some f \<Rightarrow> Inr f)"

definition jac_sparsity :: "func \<Rightarrow> error + sparsity" where
  "jac_sparsity f =
     (case fn_sparsity_out f of [] \<Rightarrow> Inl (External ''sparsity_out'') | sp # _ \<Rightarrow> Inr sp)"

text \<open>
  The first block of \<open>init\<close> ("Get the number of equations and check consistency"):
  five assertions in the order of the code; it yields \<open>n_\<close>.
\<close>

definition check_consistency :: "('d, 'l) setup_env \<Rightarrow> 'd options \<Rightarrow> error + nat" where
  "check_consistency E s =
    (let num_in = int (length (oracle_sparsity_in E));
         num_out = int (length (oracle_sparsity_out E))
     in
     if \<not> (0 \<le> o_iin s \<and> o_iin s < num_in \<and> 0 < num_in) then Inl ImplicitInputNotInRange
     else if \<not> (0 \<le> o_iout s \<and> o_iout s < num_out \<and> 0 < num_out)
       then Inl ImplicitOutputNotInRange
     else
       let sp_r = oracle_sparsity_out E ! nat (o_iout s);
           sp_z = oracle_sparsity_in E ! nat (o_iin s)
       in
       if \<not> (is_dense sp_r \<and> is_column sp_r) then Inl ResidualNotDenseVector
       else if \<not> (is_dense sp_z \<and> is_column sp_z) then Inl UnknownNotDenseVector
       else if nnz sp_r \<noteq> nnz sp_z then Inl (DimensionMismatch (nnz sp_z) (nnz sp_r))
       else Inr (nnz sp_r))"

definition init :: "('d, 'l) setup_env \<Rightarrow> 'd opt list \<Rightarrow> error + 'l rootfinder" where
  "init E opts =
    (let s = read_options E opts in
     case check_consistency E s of
       Inl e \<Rightarrow> Inl e
     | Inr n_eq \<Rightarrow>
    (case oracle_function_init E opts of
       Some e \<Rightarrow> Inl e
     | None \<Rightarrow>
    (case get_jacobian E s of
       Inl e \<Rightarrow> Inl e
     | Inr jac \<Rightarrow>
    (case jac_sparsity jac of
       Inl e \<Rightarrow> Inl e
     | Inr sp \<Rightarrow>
    if is_singular sp then Inl (StructuralSingularity (sprank sp) (size1 sp))
    else
    (case linsol_create E (o_linear_solver s) (o_linear_solver_options s) of
       Inl e \<Rightarrow> Inl e
     | Inr ls \<Rightarrow>
    if \<not> (length (o_u_c s) = n_eq \<or> o_u_c s = [])
      then Inl (ConstraintLength (length (o_u_c s)) n_eq)
    else
      Inr \<lparr>iin = nat (o_iin s), iout = nat (o_iout s), n = n_eq,
           u_c = o_u_c s, jac_f_z = jac, sp_jac = sp, linsol = ls,
           sz_w = max (oracle_sz_w E) (fn_sz_w jac) + 2 * of_nat n_eq\<rparr>)))))"

subsection \<open>Failing steps in sequence\<close>

text \<open>An exception leaves the function at once: the rest of the body runs only on \<open>Inr\<close>.\<close>

definition seq :: "error + 'a \<Rightarrow> ('a \<Rightarrow> error + 'b) \<Rightarrow> error + 'b" where
  "seq m f = (case m of Inl e \<Rightarrow> Inl e | Inr x \<Rightarrow> f x)"

text \<open>\<open>v.at(i)\<close> throws past the end; \<open>v[i]\<close> is undefined there.\<close>

definition get_at :: "'a list \<Rightarrow> nat \<Rightarrow> error + 'a" where
  "get_at xs i = (if i < length xs then Inr (xs ! i) else Inl OutOfRange)"

definition set_at :: "'a list \<Rightarrow> nat \<Rightarrow> 'a \<Rightarrow> error + 'a list" where
  "set_at xs i v = (if i < length xs then Inr (xs[i := v]) else Inl OutOfRange)"

definition idx :: "'a list \<Rightarrow> nat \<Rightarrow> error + 'a" where
  "idx xs i = (if i < length xs then Inr (xs ! i) else Inl BadAccess)"

definition set_idx :: "'a list \<Rightarrow> nat \<Rightarrow> 'a \<Rightarrow> error + 'a list" where
  "set_idx xs i v = (if i < length xs then Inr (xs[i := v]) else Inl BadAccess)"

text \<open>\<open>v.resize(k)\<close>: cut or pad with default-constructed elements.\<close>

definition resize :: "nat \<Rightarrow> 'a \<Rightarrow> 'a list \<Rightarrow> 'a list" where
  "resize k dflt xs = take k xs @ replicate (k - length xs) dflt"

text \<open>\<open>for (d ...) body\<close>, stopping at the first failure.\<close>

fun for_each :: "nat list \<Rightarrow> (nat \<Rightarrow> 's \<Rightarrow> error + 's) \<Rightarrow> 's \<Rightarrow> error + 's" where
  "for_each [] body s = Inr s"
| "for_each (d # ds) body s = seq (body d s) (for_each ds body)"

text \<open>\<open>for (d ...) out[d] = g(d)\<close> into a vector built with that many entries.\<close>

fun collect :: "nat list \<Rightarrow> (nat \<Rightarrow> error + 'a) \<Rightarrow> error + 'a list" where
  "collect [] g = Inr []"
| "collect (d # ds) g = seq (g d) (\<lambda>v. seq (collect ds g) (\<lambda>vs. Inr (v # vs)))"

text \<open>\<open>xss[d][i] = g(xss[d][i])\<close>; a plain assignment ignores the old value.\<close>

definition modify_at ::
  "nat \<Rightarrow> ('a \<Rightarrow> error + 'a) \<Rightarrow> nat \<Rightarrow> 'a list list \<Rightarrow> error + 'a list list" where
  "modify_at i g d xss =
     seq (idx xss d) (\<lambda>row.
     seq (idx row i) (\<lambda>old.
     seq (g old) (\<lambda>v. Inr (xss[d := row[i := v]]))))"

subsection \<open>Structural dependency propagation: \<open>sp_fwd\<close> and \<open>sp_rev\<close>\<close>

text \<open>
  \<open>bvec_t\<close> is a 64-bit word of dependency bits. A pointer to a buffer is the buffer's
  content, or \<open>None\<close> for a null pointer; the buffers behind distinct non-null
  pointers are distinct, as the calling convention of the framework has it.
  \<open>copy(src, src + k, dst)\<close> (here \<open>copy_n\<close>) and \<open>fill_n\<close> touch the first
  \<open>k\<close> words of their target.
\<close>

type_synonym bvec = "64 word"
type_synonym bufs = "bvec list option list"

definition copy_n :: "nat \<Rightarrow> bvec list \<Rightarrow> bvec list \<Rightarrow> error + bvec list" where
  "copy_n k src dst =
     (if length src < k \<or> length dst < k then Inl BadAccess else Inr (take k src @ drop k dst))"

definition fill_n :: "nat \<Rightarrow> bvec \<Rightarrow> bvec list \<Rightarrow> error + bvec list" where
  "fill_n k v dst = (if length dst < k then Inl BadAccess else Inr (replicate k v @ drop k dst))"

text \<open>
  The oracle's sparsity propagation and \<open>Sparsity::spsolve\<close> are collaborators. A
  propagation call is handed pointer arrays; what it leaves in each buffer it was handed
  may depend on everything it was handed. The forward call writes output buffers; the
  reverse call writes input buffers and output buffers. \<open>spsolve X B tr\<close> yields the new
  content of \<open>X\<close> (\<open>B\<close> is \<open>const\<close>).
\<close>

record sp_env =
  oracle_sp_fwd :: "bufs \<Rightarrow> bufs \<Rightarrow> nat \<Rightarrow> bvec list"
  oracle_sp_rev :: "bufs \<Rightarrow> bufs \<Rightarrow> (nat \<Rightarrow> bvec list) \<times> (nat \<Rightarrow> bvec list)"
  spsolve :: "sparsity \<Rightarrow> bvec list \<Rightarrow> bvec list \<Rightarrow> bool \<Rightarrow> bvec list"

text \<open>A call writes through the non-null pointers only.\<close>

definition written :: "bufs \<Rightarrow> (nat \<Rightarrow> bvec list) \<Rightarrow> bufs" where
  "written ptrs f = map (\<lambda>i. map_option (\<lambda>_. f i) (ptrs ! i)) [0..<length ptrs]"

definition call_sp_fwd :: "sp_env \<Rightarrow> bufs \<Rightarrow> bufs \<Rightarrow> bufs" where
  "call_sp_fwd S a r = written r (oracle_sp_fwd S a r)"


text \<open>
  Where a local pointer array aliases the caller's buffers, the content the call left is
  taken back into the caller's array; slot \<open>k\<close> of the local array pointed elsewhere
  (a scratch vector or null), so the caller's slot \<open>k\<close> keeps its content.
\<close>

definition take_back :: "bufs \<Rightarrow> nat \<Rightarrow> bufs \<Rightarrow> bufs" where
  "take_back local k caller = local[k := caller ! k]"

text \<open>
  \<open>sp_fwd\<close>. The pointer arrays \<open>arg\<close> and \<open>res\<close> hold \<open>n_in()\<close> and \<open>n_out()\<close>
  entries; \<open>w\<close> is the work vector, whose first \<open>2 n_\<close> words are \<open>tmp1\<close> and
  \<open>tmp2\<close>. The result is the content of the buffers behind \<open>res\<close>.
\<close>

definition sp_fwd :: "sp_env \<Rightarrow> 'l rootfinder \<Rightarrow> bufs \<Rightarrow> bufs \<Rightarrow> bvec list \<Rightarrow> error + bufs" where
  "sp_fwd S rf arg res w =
    (let num_out = length res;
         num_in = length arg
     in
     if length w < 2 * n rf then Inl BadAccess
     else
     let tmp1 = take (n rf) w;
         tmp2 = take (n rf) (drop (n rf) w)
     in
     seq (set_idx arg (iin rf) None) (\<lambda>arg1.
     seq (set_idx (replicate num_out None) (iout rf) (Some tmp1)) (\<lambda>res1.
     seq (idx (call_sp_fwd S arg1 res1) (iout rf)) (\<lambda>t1.
     let tmp1 = the t1 in
     seq (fill_n (n rf) 0 tmp2) (\<lambda>tmp2.
     let tmp2 = spsolve S (sp_jac rf) tmp2 tmp1 False in
     seq (case res ! iout rf of
            None \<Rightarrow> Inr res
          | Some b \<Rightarrow> seq (copy_n (n rf) tmp2 b) (\<lambda>b'. Inr (res[iout rf := Some b']))) (\<lambda>res.
     if 1 < num_out then
       let arg1 = arg1[iin rf := Some tmp2];
           res1 = res[iout rf := None]
       in Inr (take_back (call_sp_fwd S arg1 res1) (iout rf) res)
     else Inr res))))))"


subsection \<open>Symbolic sensitivities: \<open>forward\<close> and \<open>reverse\<close>\<close>

text \<open>
  The expression type \<open>MX\<close> and its constructors, the oracle's own symbolic
  differentiation and the call of the cached Jacobian function \<open>jac_f_z\<close> are
  collaborators, as are \<open>size_in\<close>, \<open>size_out\<close>, \<open>n_in()\<close> and \<open>n_out()\<close> of the
  node. \<open>mx_zeros sz\<close> is \<open>MX(sz)\<close>, \<open>mx_default\<close> is \<open>MX()\<close>,
  \<open>mx_is_empty\<close> is \<open>is_empty(true)\<close>, \<open>mx_getSolve J B tr\<close> is
  \<open>J->getSolve(B, tr, linsol_)\<close>. The oracle's \<open>forward\<close> and \<open>reverse\<close> receive
  the sensitivity vector by reference, so its content before the call is an argument.
\<close>

record 'm mx_env =
  mx_zeros :: "nat \<times> nat \<Rightarrow> 'm"
  mx_default :: 'm
  mx_is_empty :: "'m \<Rightarrow> bool"
  mx_vec :: "'m \<Rightarrow> 'm"
  mx_reshape :: "'m \<Rightarrow> nat \<times> nat \<Rightarrow> 'm"
  mx_horzcat :: "'m list \<Rightarrow> 'm"
  mx_horzsplit :: "'m \<Rightarrow> 'm list"
  mx_neg :: "'m \<Rightarrow> 'm"
  mx_add :: "'m \<Rightarrow> 'm \<Rightarrow> 'm"
  mx_getSolve :: "'m \<Rightarrow> 'm \<Rightarrow> bool \<Rightarrow> 'm"
  oracle_forward ::
    "'m list \<Rightarrow> 'm list \<Rightarrow> 'm list list \<Rightarrow> 'm list list \<Rightarrow> error + 'm list list"
  oracle_reverse ::
    "'m list \<Rightarrow> 'm list \<Rightarrow> 'm list list \<Rightarrow> 'm list list \<Rightarrow> error + 'm list list"
  jac_call :: "'m list \<Rightarrow> error + 'm list"
  size_in :: "nat \<Rightarrow> nat \<times> nat"
  size_out :: "nat \<Rightarrow> nat \<times> nat"
  n_in :: nat
  n_out :: nat

definition front :: "'a list \<Rightarrow> error + 'a" where
  "front xs = (case xs of [] \<Rightarrow> Inl BadAccess | x # _ \<Rightarrow> Inr x)"

text \<open>\<open>for (d ...) rhs[d] = vec(fsens[d][iout_])\<close>\<close>

definition rhs_of :: "'m mx_env \<Rightarrow> nat \<Rightarrow> 'm list list \<Rightarrow> nat \<Rightarrow> error + 'm" where
  "rhs_of M i fsens d = seq (idx fsens d) (\<lambda>row. seq (idx row i) (\<lambda>x. Inr (mx_vec M x)))"

text \<open>\<open>xss[d][i] = ys[d][j]\<close>\<close>

definition assign_from ::
  "nat \<Rightarrow> 'a list list \<Rightarrow> nat \<Rightarrow> nat \<Rightarrow> 'a list list \<Rightarrow> error + 'a list list" where
  "assign_from i ys j d xss =
     seq (idx ys d) (\<lambda>row. seq (idx row j) (\<lambda>y. modify_at i (\<lambda>_. Inr y) d xss))"

definition forward ::
  "'m mx_env \<Rightarrow> 'l rootfinder \<Rightarrow> 'm list \<Rightarrow> 'm list \<Rightarrow> 'm list list \<Rightarrow> 'm list list
     \<Rightarrow> error + 'm list list" where
  "forward M rf arg res fseed fsens =
    (let nfwd = length fseed;
         fsens = resize nfwd [] fsens
     in
     if nfwd = 0 then Inr fsens
     else
     seq (get_at res (iout rf)) (\<lambda>z.
     seq (set_at arg (iin rf) z) (\<lambda>f_arg.
     seq (set_at res (iout rf) (mx_zeros M (size_in M (iin rf)))) (\<lambda>f_res.
     seq (for_each [0..<nfwd]
            (\<lambda>d f_fseed. seq (set_at (f_fseed ! d) (iin rf) (mx_zeros M (size_in M (iin rf))))
               (\<lambda>s. Inr (f_fseed[d := s]))) fseed) (\<lambda>f_fseed.
     seq (oracle_forward M f_arg f_res f_fseed fsens) (\<lambda>fsens.
     seq (jac_call M f_arg) (\<lambda>Js.
     seq (front Js) (\<lambda>J.
     seq (collect [0..<nfwd] (rhs_of M (iout rf) fsens)) (\<lambda>rhs.
     let rhs = mx_horzsplit M (mx_getSolve M J (mx_neg M (mx_horzcat M rhs)) False) in
     seq (for_each [0..<nfwd]
            (\<lambda>d fsens. seq (idx rhs d) (\<lambda>x.
               modify_at (iout rf) (\<lambda>_. Inr (mx_reshape M x (size_in M (iin rf)))) d fsens))
            fsens) (\<lambda>fsens.
     if 1 < n_out M then
       seq (for_each [0..<nfwd] (assign_from (iin rf) fsens (iout rf)) f_fseed) (\<lambda>f_fseed.
       seq (oracle_forward M f_arg f_res f_fseed fsens) (\<lambda>fsens.
       for_each [0..<nfwd] (assign_from (iout rf) f_fseed (iin rf)) fsens))
     else Inr fsens))))))))))"

text \<open>
  The adjoint seeds handed to the oracle: \<open>f_aseed[d][i]\<close> for \<open>i < num_out\<close>. Every
  entry of the \<open>nadj\<close> by \<open>num_out\<close> array is assigned, so the two nested loops build
  the array.
\<close>

definition seeds_for_f ::
  "nat \<Rightarrow> nat \<Rightarrow> (nat \<Rightarrow> nat \<Rightarrow> error + 'm) \<Rightarrow> error + 'm list list" where
  "seeds_for_f nadj num_out entry =
     collect [0..<nadj] (\<lambda>d. collect [0..<num_out] (\<lambda>i. entry d i))"

text \<open>\<open>asens[d][i] += asens_aux[d][i]\<close> for \<open>i \<noteq> iin_\<close>\<close>

definition add_aux ::
  "'m mx_env \<Rightarrow> nat \<Rightarrow> 'm list list \<Rightarrow> nat \<Rightarrow> nat \<Rightarrow> 'm list list \<Rightarrow> error + 'm list list" where
  "add_aux M k asens_aux d i asens =
     (if i \<noteq> k then
        seq (idx asens_aux d) (\<lambda>row.
        seq (idx row i) (\<lambda>a. modify_at i (\<lambda>old. Inr (mx_add M old a)) d asens))
      else Inr asens)"

definition reverse ::
  "'m mx_env \<Rightarrow> 'l rootfinder \<Rightarrow> 'm list \<Rightarrow> 'm list \<Rightarrow> 'm list list \<Rightarrow> 'm list list
     \<Rightarrow> error + 'm list list" where
  "reverse M rf arg res aseed asens =
    (let nadj = length aseed;
         asens = resize nadj [] asens
     in
     if nadj = 0 then Inr asens
     else
     seq (get_at res (iout rf)) (\<lambda>z.
     seq (set_idx arg (iin rf) z) (\<lambda>f_arg.
     seq (jac_call M f_arg) (\<lambda>Js.
     seq (front Js) (\<lambda>J.
     let num_out = n_out M;
         num_in = n_in M
     in
     seq (set_idx res (iout rf) (mx_zeros M (size_in M (iin rf)))) (\<lambda>f_res.
     seq (seeds_for_f nadj num_out
            (\<lambda>d i. if i = iout rf then idx f_res (iout rf) else idx (aseed ! d) i)) (\<lambda>f_aseed.
     seq (if 1 < num_out then
            seq (oracle_reverse M f_arg f_res f_aseed []) (\<lambda>asens_aux.
            seq (collect [0..<nadj] (\<lambda>d.
                   seq (idx asens_aux d) (\<lambda>row.
                   seq (idx row (iin rf)) (\<lambda>a.
                   seq (idx (aseed ! d) (iout rf)) (\<lambda>s. Inr (mx_vec M (mx_add M a s))))))) (\<lambda>rhs.
            Inr (asens_aux, rhs)))
          else
            seq (collect [0..<nadj] (\<lambda>d.
                   seq (idx (aseed ! d) (iout rf)) (\<lambda>s. Inr (mx_vec M s)))) (\<lambda>rhs.
            Inr ([], rhs))) (\<lambda>(asens_aux, rhs).
     let rhs = mx_horzsplit M (mx_getSolve M J (mx_neg M (mx_horzcat M rhs)) True) in
     seq (seeds_for_f nadj num_out
            (\<lambda>d i. if i = iout rf then seq (idx rhs d) (\<lambda>x. Inr (mx_reshape M x (size_out M i)))
                    else Inr (mx_zeros M (size_out M i)))) (\<lambda>f_aseed.
     let asens = map (resize num_in (mx_default M)) asens in
     seq (collect [0..<nadj] (\<lambda>d.
            seq (idx (asens ! d) (iin rf)) (\<lambda>a.
            Inr (if mx_is_empty M a then mx_zeros M (size_in M (iin rf)) else a)))) (\<lambda>tmp.
     seq (oracle_reverse M f_arg f_res f_aseed asens) (\<lambda>asens.
     seq (for_each [0..<nadj] (\<lambda>d. modify_at (iin rf) (\<lambda>_. Inr (tmp ! d)) d) asens) (\<lambda>asens.
     if 1 < num_out then
       for_each [0..<nadj]
         (\<lambda>d. for_each [0..<num_in] (add_aux M (iin rf) asens_aux d)) asens
     else Inr asens))))))))))))"

subsection \<open>A concrete node: the scalar equation \<open>z\<^sup>2 - p = 0\<close>\<close>

text \<open>
  The residual of the spec's test, \<open>F(z, p) = z\<^sup>2 - p\<close>, with the auxiliary output
  \<open>y = z + p\<close>. A matrix is the list of its columns. The derivative rules of the
  oracle are written out: \<open>dr = 2 z dz - dp\<close>, \<open>dy = dz + dp\<close>, and their transposes.
  The solve is the one of a 1-by-1 system.
\<close>

type_synonym matrix = "rat list list"

definition sc :: "matrix \<Rightarrow> rat" where
  "sc m = (case m of (x # _) # _ \<Rightarrow> x | _ \<Rightarrow> 0)"

definition scalar :: "rat \<Rightarrow> matrix" where
  "scalar x = [[x]]"

definition sq_forward ::
  "nat \<Rightarrow> matrix list \<Rightarrow> matrix list \<Rightarrow> matrix list list \<Rightarrow> matrix list list
     \<Rightarrow> error + matrix list list" where
  "sq_forward k arg res fseed fsens =
     Inr (map (\<lambda>s. take k [scalar (2 * sc (arg ! 0) * sc (s ! 0) - sc (s ! 1)),
                            scalar (sc (s ! 0) + sc (s ! 1))]) fseed)"

definition sq_reverse ::
  "nat \<Rightarrow> matrix list \<Rightarrow> matrix list \<Rightarrow> matrix list list \<Rightarrow> matrix list list
     \<Rightarrow> error + matrix list list" where
  "sq_reverse k arg res aseed asens =
     Inr (map (\<lambda>s. let r = sc (s ! 0); y = (if 1 < k then sc (s ! 1) else 0)
                   in [scalar (2 * sc (arg ! 0) * r + y), scalar (y - r)]) aseed)"

definition sq_node :: "nat \<Rightarrow> matrix mx_env" where
  "sq_node k =
     \<lparr>mx_zeros = (\<lambda>(r, c). replicate c (replicate r 0)),
      mx_default = [],
      mx_is_empty = (\<lambda>m. m = []),
      mx_vec = (\<lambda>m. [concat m]),
      mx_reshape = (\<lambda>m (r, c). map (\<lambda>j. take r (drop (j * r) (concat m))) [0..<c]),
      mx_horzcat = concat,
      mx_horzsplit = map (\<lambda>c. [c]),
      mx_neg = map (map uminus),
      mx_add = map2 (map2 (+)),
      mx_getSolve = (\<lambda>J B tr. map (map (\<lambda>b. b / sc J)) B),
      oracle_forward = sq_forward k,
      oracle_reverse = sq_reverse k,
      jac_call = (\<lambda>arg. Inr [scalar (2 * sc (arg ! 0))]),
      size_in = (\<lambda>_. (1, 1)),
      size_out = (\<lambda>_. (1, 1)),
      n_in = 2,
      n_out = k\<rparr>"

definition sq_rootfinder :: "unit rootfinder" where
  "sq_rootfinder =
     \<lparr>iin = 0, iout = 0, n = 1, u_c = [],
      jac_f_z = \<lparr>fn_sparsity_out = [\<lparr>size1 = 1, size2 = 1, nonzeros = [(0, 0)]\<rparr>], fn_sz_w = 0\<rparr>,
      sp_jac = \<lparr>size1 = 1, size2 = 1, nonzeros = [(0, 0)]\<rparr>, linsol = (), sz_w = 2\<rparr>"

subsection \<open>Concrete inputs for setup and for sparsity propagation\<close>

definition dense_column :: "nat \<Rightarrow> sparsity" where
  "dense_column k = \<lparr>size1 = k, size2 = 1, nonzeros = map (\<lambda>r. (r, 0)) [0..<k]\<rparr>"

definition zero_column_pattern :: sparsity where
  "zero_column_pattern = \<lparr>size1 = 2, size2 = 2, nonzeros = [(0, 0), (1, 0)]\<rparr>"

definition diagonal_pattern :: sparsity where
  "diagonal_pattern = \<lparr>size1 = 2, size2 = 2, nonzeros = [(0, 0), (1, 1)]\<rparr>"

definition func_of :: "sparsity \<Rightarrow> func" where
  "func_of sp = \<lparr>fn_sparsity_out = [sp], fn_sz_w = 0\<rparr>"

text \<open>
  An oracle with a dense 2-vector and a dense 1-vector on either side, whose generated
  Jacobian of output 0 with respect to input 0 is diagonal.
\<close>

definition example_setup :: "(unit, unit) setup_env" where
  "example_setup =
     \<lparr>oracle_sparsity_in = [dense_column 2, dense_column 1],
      oracle_sparsity_out = [dense_column 2, dense_column 1],
      oracle_sz_w = 4,
      oracle_function_init = (\<lambda>_. None),
      oracle_jacobian = (\<lambda>i j. Inr (func_of diagonal_pattern)),
      linsol_create = (\<lambda>_ _. Inr ()),
      empty_dict = ()\<rparr>"

text \<open>
  The same oracle with a third input and a third output that are 2-by-2 diagonal
  matrices, neither dense nor a column.
\<close>

definition mixed_setup :: "(unit, unit) setup_env" where
  "mixed_setup =
     example_setup
       \<lparr>oracle_sparsity_in := [dense_column 2, dense_column 1, diagonal_pattern],
        oracle_sparsity_out := [dense_column 2, dense_column 1, diagonal_pattern]\<rparr>"

text \<open>
  Dependency propagation of the scalar node: every output depends on every input that is
  handed over; the reverse call adds the seeds of all outputs to every input and clears
  the seeds. The structural solve of a 1-by-1 pattern adds \<open>B\<close> to \<open>X\<close>.
\<close>

definition first_word :: "bvec list option \<Rightarrow> bvec" where
  "first_word p = (case p of Some (x # _) \<Rightarrow> x | _ \<Rightarrow> 0)"

definition or_all :: "bufs \<Rightarrow> bvec" where
  "or_all ps = fold (\<lambda>p acc. acc OR first_word p) ps 0"

definition sq_sp_env :: sp_env where
  "sq_sp_env =
     \<lparr>oracle_sp_fwd = (\<lambda>a r i. [or_all a]),
      oracle_sp_rev = (\<lambda>a r. (\<lambda>i. [first_word (a ! i) OR or_all r], \<lambda>i. [0])),
      spsolve = (\<lambda>sp X B tr. map2 (OR) X B)\<rparr>"

section \<open>Auxiliary facts\<close>

subsection \<open>Structural rank\<close>

lemma fold_max_0: "fold max xs (a::nat) = Max (insert a (set xs))"
  using Max.set_eq_fold [of a xs] by simp

lemma matchings_length_le:
  assumes "sparsity_ok sp" "es \<in> set (matchings sp)"
  shows "length es \<le> size1 sp"
proof -
  from assms(2) have m: "matching es" and sub: "es \<in> set (subseqs (nonzeros sp))"
    by (auto simp: matchings_def)
  from sub have "set es \<subseteq> set (nonzeros sp)"
    by (metis subseqs_powset PowD image_eqI)
  with assms(1) have "fst ` set es \<subseteq> {..<size1 sp}"
    by (fastforce simp: sparsity_ok_def list_all_iff)
  then have "card (fst ` set es) \<le> size1 sp"
    by (metis card_lessThan card_mono finite_lessThan)
  moreover from m have "card (fst ` set es) = length es"
    by (metis matching_def distinct_card length_map set_map)
  ultimately show ?thesis by simp
qed

lemma nil_in_subseqs: "[] \<in> set (subseqs xs)"
  by (induction xs) (auto simp: Let_def)

lemma nil_in_matchings: "[] \<in> set (matchings sp)"
  by (simp add: matchings_def matching_def nil_in_subseqs)

lemma is_singular_iff_sprank:
  assumes "sparsity_ok sp" "size1 sp = size2 sp"
  shows "is_singular sp \<longleftrightarrow> sprank sp < size1 sp"
proof -
  let ?L = "length ` set (matchings sp)"
  have fin: "finite (insert 0 ?L)" by simp
  have le: "\<forall>l \<in> ?L. l \<le> size1 sp"
    using matchings_length_le [OF assms(1)] by auto
  have r: "sprank sp = Max (insert 0 ?L)"
    by (simp add: sprank_def fold_max_0)
  have z: "0 \<in> ?L" using nil_in_matchings [of sp] by force
  have "is_singular sp \<longleftrightarrow> (\<forall>l \<in> ?L. l \<noteq> size1 sp)"
    using assms(2) by (auto simp: is_singular_def has_perfect_matching_def list_ex_iff)
  also have "\<dots> \<longleftrightarrow> (\<forall>l \<in> insert 0 ?L. l < size1 sp)"
    using le z by (auto simp: le_less)
  also have "\<dots> \<longleftrightarrow> Max (insert 0 ?L) < size1 sp"
    using fin by (subst Max_less_iff) auto
  finally show ?thesis by (simp add: r)
qed

subsection \<open>Sequencing and loops\<close>

lemma resize_length [simp]: "length (resize k dflt xs) = k"
  by (simp add: resize_def)

lemma resize_nth:
  "i < k \<Longrightarrow> resize k dflt xs ! i = (if i < length xs then xs ! i else dflt)"
  by (simp add: resize_def nth_append)

lemma seq_Inr: "seq m f = Inr y \<longleftrightarrow> (\<exists>x. m = Inr x \<and> f x = Inr y)"
  by (cases m) (simp_all add: seq_def)

lemma seq_Inr_left [simp]: "seq (Inr x) f = f x"
  by (simp add: seq_def)

lemma seq_Inl_left [simp]: "seq (Inl e) f = Inl e"
  by (simp add: seq_def)

lemma for_each_append:
  "for_each (xs @ ys) body s = seq (for_each xs body s) (for_each ys body)"
proof (induction xs arbitrary: s)
  case Nil
  show ?case by simp
next
  case (Cons d ds)
  show ?case by (cases "body d s") (simp_all add: Cons.IH)
qed

lemma for_each_snoc:
  "for_each (ds @ [k]) body s = seq (for_each ds body s) (body k)"
proof -
  have "for_each [k] body t = body k t" for t
    by (cases "body k t") simp_all
  then have "for_each [k] body = body k" by (rule ext)
  then show ?thesis by (simp add: for_each_append)
qed

lemma for_each_bound:
  assumes "for_each [0..<k] body xs = Inr ys"
    and "\<And>d s s'. body d s = Inr s' \<Longrightarrow> d < length s \<and> length s' = length s"
  shows "k \<le> length xs \<and> length ys = length xs"
  using assms(1)
proof (induction k arbitrary: ys)
  case 0
  then show ?case by simp
next
  case (Suc k)
  then obtain mid where m: "for_each [0..<k] body xs = Inr mid" and b: "body k mid = Inr ys"
    by (auto simp: for_each_snoc seq_Inr)
  from Suc.IH [OF m] assms(2) [OF b] show ?case by simp
qed

lemma for_each_local:
  assumes "for_each [0..<k] body xs = Inr ys" and "k \<le> length xs"
    and "\<And>d s s'. d < length s \<Longrightarrow> body d s = Inr s' \<Longrightarrow>
           length s' = length s \<and> P d (s ! d) (s' ! d) \<and> (\<forall>e. e \<noteq> d \<longrightarrow> s' ! e = s ! e)"
  shows "length ys = length xs \<and> (\<forall>d<k. P d (xs ! d) (ys ! d)) \<and> (\<forall>d\<ge>k. ys ! d = xs ! d)"
  using assms(1,2)
proof (induction k arbitrary: ys)
  case 0
  then show ?case by simp
next
  case (Suc k)
  then obtain mid where m: "for_each [0..<k] body xs = Inr mid" and b: "body k mid = Inr ys"
    by (auto simp: for_each_snoc seq_Inr)
  from Suc.prems have kl: "k \<le> length xs" "k < length xs" by simp_all
  note ih = Suc.IH [OF m kl(1)]
  from ih kl have "k < length mid" by simp
  note st = assms(3) [OF this b]
  show ?case
  proof (intro conjI allI impI)
    show "length ys = length xs" using ih st by simp
  next
    fix d assume "d < Suc k"
    then consider "d < k" | "d = k" by linarith
    then show "P d (xs ! d) (ys ! d)"
    proof cases
      case 1
      then show ?thesis using ih st by simp
    next
      case 2
      then show ?thesis using ih st by simp
    qed
  next
    fix d assume "Suc k \<le> d"
    then show "ys ! d = xs ! d" using ih st by simp
  qed
qed

lemma collect_Inr:
  "collect ds g = Inr ys \<longleftrightarrow> length ys = length ds \<and> (\<forall>j<length ds. g (ds ! j) = Inr (ys ! j))"
proof (induction ds arbitrary: ys)
  case Nil
  show ?case by auto
next
  case (Cons d ds)
  show ?case
  proof (cases ys)
    case Nil
    then show ?thesis by (auto simp: seq_Inr)
  next
    case (Cons y ys')
    then show ?thesis
      by (auto simp: seq_Inr Cons.IH nth_Cons split: nat.splits)
  qed
qed

lemma collect_upt_Inr:
  "collect [0..<k] g = Inr ys \<longleftrightarrow> length ys = k \<and> (\<forall>d<k. g d = Inr (ys ! d))"
  by (simp add: collect_Inr)

lemma modify_at_Inr:
  "modify_at i g d xss = Inr yss \<longleftrightarrow>
     d < length xss \<and> i < length (xss ! d) \<and>
     (\<exists>v. g (xss ! d ! i) = Inr v \<and> yss = xss[d := (xss ! d)[i := v]])"
  by (auto simp: modify_at_def seq_Inr idx_def)

lemma zero_loop:
  "k \<le> length xs \<Longrightarrow>
   for_each [0..<k] (\<lambda>d f. seq (set_at (f ! d) c z) (\<lambda>s. Inr (f[d := s]))) xs =
     (if \<forall>d<k. c < length (xs ! d)
      then Inr (map (\<lambda>s. s[c := z]) (take k xs) @ drop k xs) else Inl OutOfRange)"
proof (induction k)
  case 0
  show ?case by simp
next
  case (Suc k)
  let ?body = "\<lambda>d f. seq (set_at (f ! d) c z) (\<lambda>s. Inr (f[d := s]))"
  let ?mid = "map (\<lambda>s. s[c := z]) (take k xs) @ drop k xs"
  from Suc.prems have k: "k < length xs" by simp
  have ih: "for_each [0..<k] ?body xs =
      (if \<forall>d<k. c < length (xs ! d) then Inr ?mid else Inl OutOfRange)"
    using Suc.IH k by simp
  have split: "drop k xs = xs ! k # drop (Suc k) xs"
    using k by (simp add: Cons_nth_drop_Suc)
  have tk: "take (Suc k) xs = take k xs @ [xs ! k]"
    using k by (simp add: take_Suc_conv_app_nth)
  have midk: "?mid ! k = xs ! k" using k by (simp add: nth_append)
  have upd: "?mid[k := v] = map (\<lambda>s. s[c := z]) (take k xs) @ v # drop (Suc k) xs" for v
    using k by (simp add: list_update_append split)
  have step: "for_each [0..<Suc k] ?body xs = seq (for_each [0..<k] ?body xs) (?body k)"
    by (simp add: for_each_snoc)
  consider (bad_before) "\<not> (\<forall>d<k. c < length (xs ! d))"
    | (bad_now) "\<forall>d<k. c < length (xs ! d)" "\<not> c < length (xs ! k)"
    | (good) "\<forall>d<k. c < length (xs ! d)" "c < length (xs ! k)"
    by blast
  then show ?case
  proof cases
    case bad_before
    then have nall: "\<not> (\<forall>d<Suc k. c < length (xs ! d))" using less_SucI by blast
    have "for_each [0..<k] ?body xs = Inl OutOfRange"
      using ih bad_before by simp
    then have "for_each [0..<Suc k] ?body xs = Inl OutOfRange"
      by (simp only: step seq_Inl_left)
    then show ?thesis using nall by simp
  next
    case bad_now
    then have nall: "\<not> (\<forall>d<Suc k. c < length (xs ! d))" by blast
    have "for_each [0..<k] ?body xs = Inr ?mid"
      using ih bad_now(1) by simp
    then have "for_each [0..<Suc k] ?body xs = ?body k ?mid"
      by (simp only: step seq_Inr_left)
    also have "\<dots> = Inl OutOfRange"
      using bad_now(2) by (simp add: midk set_at_def)
    finally show ?thesis using nall by simp
  next
    case good
    then have all: "\<forall>d<Suc k. c < length (xs ! d)" using less_Suc_eq by auto
    have "for_each [0..<k] ?body xs = Inr ?mid"
      using ih good(1) by simp
    then have "for_each [0..<Suc k] ?body xs = ?body k ?mid"
      by (simp only: step seq_Inr_left)
    also have "\<dots> = Inr (map (\<lambda>s. s[c := z]) (take (Suc k) xs) @ drop (Suc k) xs)"
      using good(2) by (simp add: midk upd tk set_at_def)
    finally show ?thesis using all by simp
  qed
qed

lemma zero_loop_all:
  "for_each [0..<length xs] (\<lambda>d f. seq (set_at (f ! d) c z) (\<lambda>s. Inr (f[d := s]))) xs =
     (if \<forall>s \<in> set xs. c < length s then Inr (map (\<lambda>s. s[c := z]) xs) else Inl OutOfRange)"
  by (simp add: zero_loop all_set_conv_all_nth)

lemma get_at_Inr: "get_at xs i = Inr x \<longleftrightarrow> i < length xs \<and> x = xs ! i"
  by (auto simp: get_at_def)

lemma set_at_Inr: "set_at xs i v = Inr ys \<longleftrightarrow> i < length xs \<and> ys = xs[i := v]"
  by (auto simp: set_at_def)

lemma idx_Inr: "idx xs i = Inr x \<longleftrightarrow> i < length xs \<and> x = xs ! i"
  by (auto simp: idx_def)

lemma set_idx_Inr: "set_idx xs i v = Inr ys \<longleftrightarrow> i < length xs \<and> ys = xs[i := v]"
  by (auto simp: set_idx_def)

lemma front_Inr: "front xs = Inr x \<longleftrightarrow> xs \<noteq> [] \<and> x = hd xs"
  by (cases xs) (auto simp: front_def)

lemma forward_steps:
  assumes "forward M rf arg res fseed fsens0 = Inr fsens" and "fseed \<noteq> []"
    and "zero = mx_zeros M (size_in M (iin rf))"
    and "f_arg = arg[iin rf := res ! iout rf]"
    and "f_res = res[iout rf := zero]"
    and "nfwd = length fseed"
  shows "\<exists>f_fseed dr Js rhs fs2.
      iout rf < length res \<and> iin rf < length arg \<and>
      for_each [0..<nfwd] (\<lambda>d f. seq (set_at (f ! d) (iin rf) zero) (\<lambda>s. Inr (f[d := s]))) fseed
        = Inr f_fseed \<and>
      oracle_forward M f_arg f_res f_fseed (resize nfwd [] fsens0) = Inr dr \<and>
      jac_call M f_arg = Inr Js \<and> Js \<noteq> [] \<and>
      collect [0..<nfwd] (rhs_of M (iout rf) dr) = Inr rhs \<and>
      for_each [0..<nfwd]
        (\<lambda>d fs. seq (idx (mx_horzsplit M (mx_getSolve M (hd Js) (mx_neg M (mx_horzcat M rhs)) False)) d)
           (\<lambda>x. modify_at (iout rf) (\<lambda>_. Inr (mx_reshape M x (size_in M (iin rf)))) d fs)) dr
        = Inr fs2 \<and>
      (if 1 < n_out M then
         \<exists>f_fseed2 fs3.
           for_each [0..<nfwd] (assign_from (iin rf) fs2 (iout rf)) f_fseed = Inr f_fseed2 \<and>
           oracle_forward M f_arg f_res f_fseed2 fs2 = Inr fs3 \<and>
           for_each [0..<nfwd] (assign_from (iout rf) f_fseed2 (iin rf)) fs3 = Inr fsens
       else fsens = fs2)"
  using assms unfolding forward_def Let_def
  by (auto simp: seq_Inr get_at_Inr set_at_Inr front_Inr split: if_splits)


lemma modify_at_shape:
  assumes "modify_at i g d s = Inr s'"
  shows "d < length s \<and> length s' = length s"
  using assms by (auto simp: modify_at_Inr)

lemma store_loop:
  assumes "for_each [0..<k] (\<lambda>d fs. seq (idx ys d) (\<lambda>x. modify_at i (\<lambda>_. Inr (h x)) d fs)) xs = Inr zs"
  shows "k \<le> length xs \<and> length zs = length xs \<and>
         (\<forall>d<k. d < length ys \<and> i < length (xs ! d) \<and> zs ! d = (xs ! d)[i := h (ys ! d)]) \<and>
         (\<forall>d\<ge>k. zs ! d = xs ! d)"
proof -
  let ?body = "\<lambda>d fs. seq (idx ys d) (\<lambda>x. modify_at i (\<lambda>_. Inr (h x)) d fs)"
  have shape: "d < length s \<and> length s' = length s" if "?body d s = Inr s'" for d s s'
    using that by (auto simp: seq_Inr dest: modify_at_shape)
  have b: "k \<le> length xs \<and> length zs = length xs"
    using for_each_bound [OF assms shape] by simp
  have loc: "length s' = length s \<and>
             (d < length ys \<and> i < length (s ! d) \<and> s' ! d = (s ! d)[i := h (ys ! d)]) \<and>
             (\<forall>e. e \<noteq> d \<longrightarrow> s' ! e = s ! e)"
    if "d < length s" "?body d s = Inr s'" for d s s'
    using that by (auto simp: seq_Inr idx_Inr modify_at_Inr)
  from b have kl: "k \<le> length xs" by simp
  show ?thesis
    using for_each_local [where P = "\<lambda>d old new. d < length ys \<and> i < length old \<and> new = old[i := h (ys ! d)]",
        OF assms kl loc] b by simp
qed

lemma assign_loop:
  assumes "for_each [0..<k] (assign_from i ys j) xs = Inr zs"
  shows "k \<le> length xs \<and> length zs = length xs \<and>
         (\<forall>d<k. d < length ys \<and> j < length (ys ! d) \<and> i < length (xs ! d) \<and>
                 zs ! d = (xs ! d)[i := ys ! d ! j]) \<and>
         (\<forall>d\<ge>k. zs ! d = xs ! d)"
proof -
  have shape: "d < length s \<and> length s' = length s" if "assign_from i ys j d s = Inr s'" for d s s'
    using that by (auto simp: assign_from_def seq_Inr dest: modify_at_shape)
  have b: "k \<le> length xs \<and> length zs = length xs"
    using for_each_bound [OF assms shape] by simp
  have loc: "length s' = length s \<and>
             (d < length ys \<and> j < length (ys ! d) \<and> i < length (s ! d) \<and>
                s' ! d = (s ! d)[i := ys ! d ! j]) \<and>
             (\<forall>e. e \<noteq> d \<longrightarrow> s' ! e = s ! e)"
    if "d < length s" "assign_from i ys j d s = Inr s'" for d s s'
    using that by (auto simp: assign_from_def seq_Inr idx_Inr modify_at_Inr)
  from b have kl: "k \<le> length xs" by simp
  show ?thesis
    using for_each_local [where P = "\<lambda>d old new. d < length ys \<and> j < length (ys ! d) \<and>
              i < length old \<and> new = old[i := ys ! d ! j]",
        OF assms kl loc] b by simp
qed

lemma rhs_collect:
  assumes "collect [0..<k] (rhs_of M i fs) = Inr rhs"
  shows "rhs = map (\<lambda>d. mx_vec M (fs ! d ! i)) [0..<k] \<and> (\<forall>d<k. d < length fs \<and> i < length (fs ! d))"
proof -
  from assms have len: "length rhs = k" and each: "\<forall>d<k. rhs_of M i fs d = Inr (rhs ! d)"
    by (simp_all add: collect_upt_Inr)
  from each have e: "\<forall>d<k. d < length fs \<and> i < length (fs ! d) \<and> rhs ! d = mx_vec M (fs ! d ! i)"
    by (auto simp: rhs_of_def seq_Inr idx_Inr)
  have "rhs = map (\<lambda>d. mx_vec M (fs ! d ! i)) [0..<k]"
    using len e by (intro nth_equalityI) simp_all
  with e show ?thesis by simp
qed

lemma seeds_for_f_Inr:
  "seeds_for_f k m entry = Inr fa \<longleftrightarrow>
     length fa = k \<and> (\<forall>d<k. length (fa ! d) = m \<and> (\<forall>i<m. entry d i = Inr (fa ! d ! i)))"
  by (auto simp: seeds_for_f_def collect_upt_Inr)

lemma seeds_for_f_eq:
  assumes "seeds_for_f k m entry = Inr fa"
    and "\<And>d i v. d < k \<Longrightarrow> i < m \<Longrightarrow> entry d i = Inr v \<Longrightarrow> v = g d i"
  shows "fa = map (\<lambda>d. map (\<lambda>i. g d i) [0..<m]) [0..<k]"
proof -
  from assms(1) have len: "length fa = k"
    and row: "\<And>d. d < k \<Longrightarrow> length (fa ! d) = m"
    and ent: "\<And>d i. d < k \<Longrightarrow> i < m \<Longrightarrow> entry d i = Inr (fa ! d ! i)"
    by (simp_all add: seeds_for_f_Inr)
  show ?thesis
  proof (rule nth_equalityI)
    show "length fa = length (map (\<lambda>d. map (\<lambda>i. g d i) [0..<m]) [0..<k])"
      using len by simp
  next
    fix d assume "d < length fa"
    then have d: "d < k" using len by simp
    have "fa ! d = map (\<lambda>i. g d i) [0..<m]"
      using row [OF d] assms(2) [OF d _ ent [OF d]] by (intro nth_equalityI) simp_all
    then show "fa ! d = map (\<lambda>d. map (\<lambda>i. g d i) [0..<m]) [0..<k] ! d"
      using d by simp
  qed
qed

lemma set_loop:
  assumes "for_each [0..<k] (\<lambda>d. modify_at i (\<lambda>_. Inr (t d)) d) xs = Inr zs"
  shows "k \<le> length xs \<and> length zs = length xs \<and>
         (\<forall>d<k. i < length (xs ! d) \<and> zs ! d = (xs ! d)[i := t d]) \<and>
         (\<forall>d\<ge>k. zs ! d = xs ! d)"
proof -
  let ?body = "\<lambda>d. modify_at i (\<lambda>_. Inr (t d)) d"
  have shape: "d < length s \<and> length s' = length s" if "?body d s = Inr s'" for d s s'
    using that by (rule modify_at_shape)
  have b: "k \<le> length xs \<and> length zs = length xs"
    using for_each_bound [OF assms shape] by simp
  have loc: "length s' = length s \<and>
             (i < length (s ! d) \<and> s' ! d = (s ! d)[i := t d]) \<and>
             (\<forall>e. e \<noteq> d \<longrightarrow> s' ! e = s ! e)"
    if "d < length s" "?body d s = Inr s'" for d s s'
    using that by (auto simp: modify_at_Inr)
  from b have kl: "k \<le> length xs" by simp
  show ?thesis
    using for_each_local [where P = "\<lambda>d old new. i < length old \<and> new = old[i := t d]",
        OF assms kl loc] b by simp
qed

lemma add_aux_row:
  assumes "for_each [0..<k] (add_aux M c aux d) s = Inr s'"
  shows "length s' = length s \<and> (\<forall>e. e \<noteq> d \<longrightarrow> s' ! e = s ! e) \<and>
         length (s' ! d) = length (s ! d) \<and>
         (\<forall>i<k. i \<noteq> c \<longrightarrow> d < length aux \<and> i < length (aux ! d) \<and> i < length (s ! d) \<and>
                  s' ! d ! i = mx_add M (s ! d ! i) (aux ! d ! i)) \<and>
         (\<forall>i. k \<le> i \<or> i = c \<longrightarrow> s' ! d ! i = s ! d ! i)"
  using assms
proof (induction k arbitrary: s')
  case 0
  then show ?case by simp
next
  case (Suc k)
  then obtain mid where m: "for_each [0..<k] (add_aux M c aux d) s = Inr mid"
    and b: "add_aux M c aux d k mid = Inr s'"
    by (auto simp: for_each_snoc seq_Inr)
  note ih = Suc.IH [OF m]
  show ?case
  proof (cases "k = c")
    case True
    with b have "s' = mid" by (simp add: add_aux_def)
    with ih True show ?thesis by (auto simp: less_Suc_eq)
  next
    case False
    with b have st: "d < length aux" "k < length (aux ! d)" "d < length mid" "k < length (mid ! d)"
      "s' = mid[d := (mid ! d)[k := mx_add M (mid ! d ! k) (aux ! d ! k)]]"
      by (auto simp: add_aux_def seq_Inr idx_Inr modify_at_Inr)
    from ih have midk: "mid ! d ! k = s ! d ! k" by simp
    show ?thesis
    proof (intro conjI allI impI)
      show "length s' = length s" using ih st by simp
      show "length (s' ! d) = length (s ! d)" using ih st by simp
    next
      fix e assume "e \<noteq> d"
      then show "s' ! e = s ! e" using ih st by simp
    next
      fix i assume i: "i < Suc k" "i \<noteq> c"
      show "d < length aux" by (rule st(1))
      show "i < length (aux ! d)" using i ih st(2) by (cases "i = k") (simp_all add: less_Suc_eq)
      show "i < length (s ! d)" using i ih st(4) by (cases "i = k") (simp_all add: less_Suc_eq)
      show "s' ! d ! i = mx_add M (s ! d ! i) (aux ! d ! i)"
        using i ih st midk by (cases "i = k") (simp_all add: less_Suc_eq)
    next
      fix i assume i: "Suc k \<le> i \<or> i = c"
      then have "i \<noteq> k" using False by auto
      then show "s' ! d ! i = s ! d ! i" using i ih st by auto
    qed
  qed
qed

lemma add_aux_loops:
  assumes "for_each [0..<k] (\<lambda>d. for_each [0..<m] (add_aux M c aux d)) xs = Inr zs"
    and "k \<le> length xs"
  shows "length zs = length xs \<and>
         (\<forall>d<k. length (zs ! d) = length (xs ! d) \<and>
            (\<forall>i<m. i \<noteq> c \<longrightarrow> d < length aux \<and> i < length (aux ! d) \<and> i < length (xs ! d) \<and>
                     zs ! d ! i = mx_add M (xs ! d ! i) (aux ! d ! i)) \<and>
            (\<forall>i. m \<le> i \<or> i = c \<longrightarrow> zs ! d ! i = xs ! d ! i))"
proof -
  let ?P = "\<lambda>d old new. length new = length old \<and>
            (\<forall>i<m. i \<noteq> c \<longrightarrow> d < length aux \<and> i < length (aux ! d) \<and> i < length old \<and>
                     new ! i = mx_add M (old ! i) (aux ! d ! i)) \<and>
            (\<forall>i. m \<le> i \<or> i = c \<longrightarrow> new ! i = old ! i)"
  have loc: "length s' = length s \<and> ?P d (s ! d) (s' ! d) \<and> (\<forall>e. e \<noteq> d \<longrightarrow> s' ! e = s ! e)"
    if "d < length s" "for_each [0..<m] (add_aux M c aux d) s = Inr s'" for d s s'
    using add_aux_row [OF that(2)] by simp
  show ?thesis
    using for_each_local [where P = ?P, OF assms loc] by simp
qed

subsection \<open>Steps of a successful \<open>reverse\<close>\<close>

lemma reverse_steps:
  assumes "reverse M rf arg res aseed asens0 = Inr asens" and "aseed \<noteq> []"
    and "zero = mx_zeros M (size_in M (iin rf))"
    and "f_arg = arg[iin rf := res ! iout rf]"
    and "f_res = res[iout rf := zero]"
    and "nadj = length aseed"
    and "pre = map (resize (n_in M) (mx_default M)) (resize nadj [] asens0)"
  shows "\<exists>Js fa1 aux rhs fa2 tmp post as3.
      iout rf < length res \<and> iin rf < length arg \<and>
      jac_call M f_arg = Inr Js \<and> Js \<noteq> [] \<and>
      seeds_for_f nadj (n_out M)
        (\<lambda>d i. if i = iout rf then idx f_res (iout rf) else idx (aseed ! d) i) = Inr fa1 \<and>
      (if 1 < n_out M then
         oracle_reverse M f_arg f_res fa1 [] = Inr aux \<and>
         collect [0..<nadj] (\<lambda>d.
            seq (idx aux d) (\<lambda>row.
            seq (idx row (iin rf)) (\<lambda>a.
            seq (idx (aseed ! d) (iout rf)) (\<lambda>s. Inr (mx_vec M (mx_add M a s)))))) = Inr rhs
       else
         collect [0..<nadj] (\<lambda>d.
            seq (idx (aseed ! d) (iout rf)) (\<lambda>s. Inr (mx_vec M s))) = Inr rhs) \<and>
      seeds_for_f nadj (n_out M)
        (\<lambda>d i. if i = iout rf
                then seq (idx (mx_horzsplit M (mx_getSolve M (hd Js) (mx_neg M (mx_horzcat M rhs)) True)) d)
                       (\<lambda>x. Inr (mx_reshape M x (size_out M i)))
                else Inr (mx_zeros M (size_out M i))) = Inr fa2 \<and>
      collect [0..<nadj] (\<lambda>d.
            seq (idx (pre ! d) (iin rf)) (\<lambda>a. Inr (if mx_is_empty M a then zero else a))) = Inr tmp \<and>
      oracle_reverse M f_arg f_res fa2 pre = Inr post \<and>
      for_each [0..<nadj] (\<lambda>d. modify_at (iin rf) (\<lambda>_. Inr (tmp ! d)) d) post = Inr as3 \<and>
      (if 1 < n_out M then
         for_each [0..<nadj] (\<lambda>d. for_each [0..<n_in M] (add_aux M (iin rf) aux d)) as3 = Inr asens
       else asens = as3)"
proof (cases "1 < n_out M")
  case True
  with assms show ?thesis
    unfolding reverse_def Let_def
    by (simp add: seq_Inr get_at_Inr set_idx_Inr front_Inr) blast
next
  case False
  with assms show ?thesis
    unfolding reverse_def Let_def
    by (simp add: seq_Inr get_at_Inr set_idx_Inr front_Inr) blast
qed

lemma reverse_result:
  assumes "reverse M rf arg res aseed asens0 = Inr asens" and "aseed \<noteq> []"
    and "zero = mx_zeros M (size_in M (iin rf))"
    and "f_arg = arg[iin rf := res ! iout rf]"
    and "f_res = res[iout rf := zero]"
    and "f_aseed = map (\<lambda>d. map (\<lambda>i. if i = iout rf then zero else aseed ! d ! i) [0..<n_out M])
                     [0..<length aseed]"
    and "pre = map (resize (n_in M) (mx_default M)) (resize (length aseed) [] asens0)"
  shows "\<exists>Js aux rhs lam post.
      iout rf < length res \<and> iin rf < length arg \<and> iin rf < n_in M \<and>
      jac_call M f_arg = Inr Js \<and> Js \<noteq> [] \<and>
      (if 1 < n_out M
       then oracle_reverse M f_arg f_res f_aseed [] = Inr aux \<and>
            rhs = map (\<lambda>d. mx_vec M (mx_add M (aux ! d ! iin rf) (aseed ! d ! iout rf)))
                    [0..<length aseed]
       else rhs = map (\<lambda>d. mx_vec M (aseed ! d ! iout rf)) [0..<length aseed]) \<and>
      lam = mx_horzsplit M (mx_getSolve M (hd Js) (mx_neg M (mx_horzcat M rhs)) True) \<and>
      oracle_reverse M f_arg f_res
        (map (\<lambda>d. map (\<lambda>i. if i = iout rf then mx_reshape M (lam ! d) (size_out M i)
                            else mx_zeros M (size_out M i)) [0..<n_out M]) [0..<length aseed])
        pre = Inr post \<and>
      (\<forall>d<length aseed.
         iin rf < length (asens ! d) \<and>
         asens ! d ! iin rf =
           (if mx_is_empty M (pre ! d ! iin rf) then zero else pre ! d ! iin rf) \<and>
         (\<forall>i<n_in M. i \<noteq> iin rf \<longrightarrow>
            asens ! d ! i = (if 1 < n_out M then mx_add M (post ! d ! i) (aux ! d ! i)
                             else post ! d ! i)))"
proof -
  let ?k = "length aseed"
  from reverse_steps [OF assms(1,2,3,4,5) refl assms(7)]
  obtain Js fa1 aux rhs fa2 tmp post as3 where
    r: "iout rf < length res" "iin rf < length arg"
    and j: "jac_call M f_arg = Inr Js" "Js \<noteq> []"
    and s1: "seeds_for_f ?k (n_out M)
        (\<lambda>d i. if i = iout rf then idx f_res (iout rf) else idx (aseed ! d) i) = Inr fa1"
    and br: "if 1 < n_out M then
         oracle_reverse M f_arg f_res fa1 [] = Inr aux \<and>
         collect [0..<?k] (\<lambda>d.
            seq (idx aux d) (\<lambda>row.
            seq (idx row (iin rf)) (\<lambda>a.
            seq (idx (aseed ! d) (iout rf)) (\<lambda>s. Inr (mx_vec M (mx_add M a s)))))) = Inr rhs
       else
         collect [0..<?k] (\<lambda>d.
            seq (idx (aseed ! d) (iout rf)) (\<lambda>s. Inr (mx_vec M s))) = Inr rhs"
    and s2: "seeds_for_f ?k (n_out M)
        (\<lambda>d i. if i = iout rf
                then seq (idx (mx_horzsplit M (mx_getSolve M (hd Js) (mx_neg M (mx_horzcat M rhs)) True)) d)
                       (\<lambda>x. Inr (mx_reshape M x (size_out M i)))
                else Inr (mx_zeros M (size_out M i))) = Inr fa2"
    and t: "collect [0..<?k] (\<lambda>d.
            seq (idx (pre ! d) (iin rf)) (\<lambda>a. Inr (if mx_is_empty M a then zero else a))) = Inr tmp"
    and o2: "oracle_reverse M f_arg f_res fa2 pre = Inr post"
    and m: "for_each [0..<?k] (\<lambda>d. modify_at (iin rf) (\<lambda>_. Inr (tmp ! d)) d) post = Inr as3"
    and fin: "if 1 < n_out M then
         for_each [0..<?k] (\<lambda>d. for_each [0..<n_in M] (add_aux M (iin rf) aux d)) as3 = Inr asens
       else asens = as3"
    by blast
  let ?lam = "mx_horzsplit M (mx_getSolve M (hd Js) (mx_neg M (mx_horzcat M rhs)) True)"
  have fa1: "fa1 = f_aseed"
    unfolding assms(6)
    by (rule seeds_for_f_eq [OF s1]) (auto simp: idx_Inr assms(5) r(1) split: if_splits)
  have fa2: "fa2 = map (\<lambda>d. map (\<lambda>i. if i = iout rf then mx_reshape M (?lam ! d) (size_out M i)
                            else mx_zeros M (size_out M i)) [0..<n_out M]) [0..<?k]"
    by (rule seeds_for_f_eq [OF s2]) (auto simp: idx_Inr seq_Inr split: if_splits)
  have rhs: "if 1 < n_out M
       then rhs = map (\<lambda>d. mx_vec M (mx_add M (aux ! d ! iin rf) (aseed ! d ! iout rf))) [0..<?k]
       else rhs = map (\<lambda>d. mx_vec M (aseed ! d ! iout rf)) [0..<?k]"
  proof (cases "1 < n_out M")
    case True
    with br have c: "length rhs = ?k"
      "\<forall>d<?k. rhs ! d = mx_vec M (mx_add M (aux ! d ! iin rf) (aseed ! d ! iout rf))"
      by (auto simp: collect_upt_Inr seq_Inr idx_Inr)
    then have "rhs = map (\<lambda>d. mx_vec M (mx_add M (aux ! d ! iin rf) (aseed ! d ! iout rf))) [0..<?k]"
      by (intro nth_equalityI) simp_all
    with True show ?thesis by simp
  next
    case False
    with br have c: "length rhs = ?k" "\<forall>d<?k. rhs ! d = mx_vec M (aseed ! d ! iout rf)"
      by (auto simp: collect_upt_Inr seq_Inr idx_Inr)
    then have "rhs = map (\<lambda>d. mx_vec M (aseed ! d ! iout rf)) [0..<?k]"
      by (intro nth_equalityI) simp_all
    with False show ?thesis by simp
  qed
  from t assms(2) have "iin rf < length (pre ! 0)"
    by (auto simp: collect_upt_Inr seq_Inr idx_Inr)
  with assms(2) have inn: "iin rf < n_in M"
    by (simp add: assms(7))
  from t have tmp: "\<forall>d<?k. tmp ! d = (if mx_is_empty M (pre ! d ! iin rf) then zero else pre ! d ! iin rf)"
    by (auto simp: collect_upt_Inr seq_Inr idx_Inr)
  from set_loop [OF m]
  have a3: "?k \<le> length as3"
    "\<forall>d<?k. iin rf < length (post ! d) \<and> as3 ! d = (post ! d)[iin rf := tmp ! d]"
    by simp_all
  have out: "\<forall>d<?k.
         iin rf < length (asens ! d) \<and>
         asens ! d ! iin rf =
           (if mx_is_empty M (pre ! d ! iin rf) then zero else pre ! d ! iin rf) \<and>
         (\<forall>i<n_in M. i \<noteq> iin rf \<longrightarrow>
            asens ! d ! i = (if 1 < n_out M then mx_add M (post ! d ! i) (aux ! d ! i)
                             else post ! d ! i))"
  proof (cases "1 < n_out M")
    case False
    with fin have "asens = as3" by simp
    with a3 tmp False show ?thesis by simp
  next
    case True
    with fin have "for_each [0..<?k] (\<lambda>d. for_each [0..<n_in M] (add_aux M (iin rf) aux d)) as3 = Inr asens"
      by simp
    from add_aux_loops [OF this a3(1)]
    have l: "\<forall>d<?k. length (asens ! d) = length (as3 ! d) \<and>
            (\<forall>i<n_in M. i \<noteq> iin rf \<longrightarrow> asens ! d ! i = mx_add M (as3 ! d ! i) (aux ! d ! i)) \<and>
            asens ! d ! iin rf = as3 ! d ! iin rf"
      by simp
    show ?thesis
    proof (intro allI impI conjI)
      fix d assume d: "d < ?k"
      show "iin rf < length (asens ! d)" using l a3 d by simp
      show "asens ! d ! iin rf = (if mx_is_empty M (pre ! d ! iin rf) then zero else pre ! d ! iin rf)"
        using l a3 d tmp by simp
    next
      fix d i assume d: "d < ?k" and i: "i < n_in M" "i \<noteq> iin rf"
      then have "asens ! d ! i = mx_add M (as3 ! d ! i) (aux ! d ! i)" using l by simp
      moreover have "as3 ! d ! i = post ! d ! i" using a3 d i by simp
      ultimately show "asens ! d ! i = (if 1 < n_out M then mx_add M (post ! d ! i) (aux ! d ! i)
                             else post ! d ! i)"
        using True by simp
    qed
  qed
  have br': "if 1 < n_out M
       then oracle_reverse M f_arg f_res f_aseed [] = Inr aux \<and>
            rhs = map (\<lambda>d. mx_vec M (mx_add M (aux ! d ! iin rf) (aseed ! d ! iout rf))) [0..<?k]
       else rhs = map (\<lambda>d. mx_vec M (aseed ! d ! iout rf)) [0..<?k]"
    using br rhs fa1 by (simp split: if_splits)
  have o2': "oracle_reverse M f_arg f_res
        (map (\<lambda>d. map (\<lambda>i. if i = iout rf then mx_reshape M (?lam ! d) (size_out M i)
                            else mx_zeros M (size_out M i)) [0..<n_out M]) [0..<?k])
        pre = Inr post"
    using o2 fa2 by simp
  show ?thesis
    using r inn j br' o2' out by blast
qed

subsection \<open>Buffers\<close>

lemma written_length [simp]: "length (written p f) = length p"
  by (simp add: written_def)

lemma written_nth [simp]: "i < length p \<Longrightarrow> written p f ! i = map_option (\<lambda>_. f i) (p ! i)"
  by (simp add: written_def)

section \<open>Setup\<close>

text \<open>
  Claim C8. \<open>Rootfinder::init\<close> fails with the structural-singularity error when the
  sparsity pattern of the Jacobian of the residual with respect to the unknown has no
  perfect matching, and reports the structural rank against the dimension. The assertion
  is part of setup: whenever the Jacobian that \<open>init\<close> takes (supplied or generated) is
  singular, \<open>init\<close> returns an error and no node; once the assertions that precede it
  in \<open>init\<close> and the base class initialisation have passed, the error is the
  singularity error with \<open>sprank\<close> and \<open>size1\<close> of the pattern. For a well-formed
  square pattern, having no perfect matching is the same as a structural rank below the
  dimension.
\<close>

theorem init_structural_singularity:
  assumes "get_jacobian E (read_options E opts) = Inr jac"
    and "jac_sparsity jac = Inr sp"
    and "is_singular sp"
  shows "(\<exists>e. init E opts = Inl e) \<and>
         (check_consistency E (read_options E opts) = Inr m \<and> oracle_function_init E opts = None
            \<longrightarrow> init E opts = Inl (StructuralSingularity (sprank sp) (size1 sp))) \<and>
         (sparsity_ok sp \<and> size1 sp = size2 sp \<longrightarrow> sprank sp < size1 sp)"
proof (intro conjI impI)
  show "\<exists>e. init E opts = Inl e"
    using assms by (auto simp: init_def Let_def split: sum.splits option.splits)
next
  assume "check_consistency E (read_options E opts) = Inr m \<and> oracle_function_init E opts = None"
  with assms show "init E opts = Inl (StructuralSingularity (sprank sp) (size1 sp))"
    by (simp add: init_def)
next
  assume "sparsity_ok sp \<and> size1 sp = size2 sp"
  with assms(3) show "sprank sp < size1 sp"
    using is_singular_iff_sprank by blast
qed

theorem init_structural_singularity_witness:
  "get_jacobian example_setup
     (read_options example_setup [JacobianFunction (Some (func_of zero_column_pattern))])
     = Inr (func_of zero_column_pattern) \<and>
   jac_sparsity (func_of zero_column_pattern) = Inr zero_column_pattern \<and>
   is_singular zero_column_pattern \<and>
   check_consistency example_setup
     (read_options example_setup [JacobianFunction (Some (func_of zero_column_pattern))]) = Inr 2 \<and>
   oracle_function_init example_setup [JacobianFunction (Some (func_of zero_column_pattern))]
     = None \<and>
   sparsity_ok zero_column_pattern \<and> size1 zero_column_pattern = size2 zero_column_pattern \<and>
   init example_setup [JacobianFunction (Some (func_of zero_column_pattern))]
     = Inl (StructuralSingularity 1 2) \<and>
   sprank zero_column_pattern < size1 zero_column_pattern"
proof -
  let ?o = "[JacobianFunction (Some (func_of zero_column_pattern))] :: unit opt list"
  have h1: "get_jacobian example_setup (read_options example_setup ?o)
              = Inr (func_of zero_column_pattern)"
    by code_simp
  have h2: "jac_sparsity (func_of zero_column_pattern) = Inr zero_column_pattern"
    by code_simp
  have h3: "is_singular zero_column_pattern"
    by code_simp
  have h4: "check_consistency example_setup (read_options example_setup ?o) = Inr 2"
    by code_simp
  have h5: "oracle_function_init example_setup ?o = None"
    by (simp add: example_setup_def)
  have h6: "sparsity_ok zero_column_pattern \<and> size1 zero_column_pattern = size2 zero_column_pattern"
    by code_simp
  have v: "sprank zero_column_pattern = 1" "size1 zero_column_pattern = 2"
    by code_simp+
  from init_structural_singularity [OF h1 h2 h3, of 2] h4 h5 h6
  have "init example_setup ?o
          = Inl (StructuralSingularity (sprank zero_column_pattern) (size1 zero_column_pattern))"
    and "sprank zero_column_pattern < size1 zero_column_pattern"
    by blast+
  with h1 h2 h3 h4 h5 h6 show ?thesis
    by (simp add: v)
qed

text \<open>
  Claim C9. \<open>Rootfinder::init\<close> fails at setup, with the error of the failing
  assertion and without returning a node, whenever the implicit input index or the
  implicit output index is out of range, the residual output or the unknown input is not
  a dense column vector, the unknown's number of nonzeros differs from the residual's, or
  the constraint vector has a length that is neither 0 nor \<open>n\<close>. Each fault is stated with
  the assertions before it passing, as the code orders them: the index errors, the two
  dense-vector errors, the dimension mismatch with the input size and the output size,
  and the constraint error with the length supplied and \<open>n\<close>. The constraint
  vector is checked after the Jacobian and the linear solver have been set up. The last
  conjunct says that, whatever else happens in \<open>init\<close>, every one of these faults ends
  in an error.
\<close>

theorem init_configuration_error:
  assumes "s = read_options E opts"
    and "num_in = int (length (oracle_sparsity_in E))"
    and "num_out = int (length (oracle_sparsity_out E))"
    and "sp_z = oracle_sparsity_in E ! nat (o_iin s)"
    and "sp_r = oracle_sparsity_out E ! nat (o_iout s)"
    and "in_ok = (0 \<le> o_iin s \<and> o_iin s < num_in)"
    and "out_ok = (0 \<le> o_iout s \<and> o_iout s < num_out)"
    and "r_ok = (is_dense sp_r \<and> is_column sp_r)"
    and "z_ok = (is_dense sp_z \<and> is_column sp_z)"
  shows "(\<not> in_ok \<longrightarrow> init E opts = Inl ImplicitInputNotInRange) \<and>
         (in_ok \<and> \<not> out_ok \<longrightarrow> init E opts = Inl ImplicitOutputNotInRange) \<and>
         (in_ok \<and> out_ok \<and> \<not> r_ok \<longrightarrow> init E opts = Inl ResidualNotDenseVector) \<and>
         (in_ok \<and> out_ok \<and> r_ok \<and> \<not> z_ok \<longrightarrow> init E opts = Inl UnknownNotDenseVector) \<and>
         (in_ok \<and> out_ok \<and> r_ok \<and> z_ok \<and> nnz sp_z \<noteq> nnz sp_r
            \<longrightarrow> init E opts = Inl (DimensionMismatch (nnz sp_z) (nnz sp_r))) \<and>
         (in_ok \<and> out_ok \<and> r_ok \<and> z_ok \<and> nnz sp_z = nnz sp_r \<and>
          oracle_function_init E opts = None \<and>
          get_jacobian E s = Inr jac \<and> jac_sparsity jac = Inr sp \<and> \<not> is_singular sp \<and>
          linsol_create E (o_linear_solver s) (o_linear_solver_options s) = Inr ls \<and>
          length (o_u_c s) \<noteq> nnz sp_r \<and> o_u_c s \<noteq> []
            \<longrightarrow> init E opts = Inl (ConstraintLength (length (o_u_c s)) (nnz sp_r))) \<and>
         (\<not> in_ok \<or> \<not> out_ok \<or> \<not> r_ok \<or> \<not> z_ok \<or> nnz sp_z \<noteq> nnz sp_r \<or>
          (length (o_u_c s) \<noteq> 0 \<and> length (o_u_c s) \<noteq> nnz sp_r)
            \<longrightarrow> (\<exists>e. init E opts = Inl e))"
proof -
  have cc: "check_consistency E (read_options E opts) =
      (if \<not> in_ok then Inl ImplicitInputNotInRange
       else if \<not> out_ok then Inl ImplicitOutputNotInRange
       else if \<not> r_ok then Inl ResidualNotDenseVector
       else if \<not> z_ok then Inl UnknownNotDenseVector
       else if nnz sp_z \<noteq> nnz sp_r then Inl (DimensionMismatch (nnz sp_z) (nnz sp_r))
       else Inr (nnz sp_r))"
    unfolding assms check_consistency_def Let_def by auto
  have early: "init E opts = Inl e" if "check_consistency E (read_options E opts) = Inl e" for e
    using that by (simp add: init_def Let_def)
  show ?thesis
  proof (intro conjI impI)
    assume "\<not> in_ok"
    then show "init E opts = Inl ImplicitInputNotInRange"
      by (intro early) (simp add: cc)
  next
    assume "in_ok \<and> \<not> out_ok"
    then show "init E opts = Inl ImplicitOutputNotInRange"
      by (intro early) (simp add: cc)
  next
    assume "in_ok \<and> out_ok \<and> \<not> r_ok"
    then show "init E opts = Inl ResidualNotDenseVector"
      by (intro early) (simp add: cc)
  next
    assume "in_ok \<and> out_ok \<and> r_ok \<and> \<not> z_ok"
    then show "init E opts = Inl UnknownNotDenseVector"
      by (intro early) (simp add: cc)
  next
    assume "in_ok \<and> out_ok \<and> r_ok \<and> z_ok \<and> nnz sp_z \<noteq> nnz sp_r"
    then show "init E opts = Inl (DimensionMismatch (nnz sp_z) (nnz sp_r))"
      by (intro early) (simp add: cc)
  next
    assume a: "in_ok \<and> out_ok \<and> r_ok \<and> z_ok \<and> nnz sp_z = nnz sp_r \<and>
          oracle_function_init E opts = None \<and>
          get_jacobian E s = Inr jac \<and> jac_sparsity jac = Inr sp \<and> \<not> is_singular sp \<and>
          linsol_create E (o_linear_solver s) (o_linear_solver_options s) = Inr ls \<and>
          length (o_u_c s) \<noteq> nnz sp_r \<and> o_u_c s \<noteq> []"
    then have "check_consistency E (read_options E opts) = Inr (nnz sp_r)"
      by (simp add: cc)
    with a assms(1) show "init E opts = Inl (ConstraintLength (length (o_u_c s)) (nnz sp_r))"
      by (simp add: init_def Let_def)
  next
    assume f: "\<not> in_ok \<or> \<not> out_ok \<or> \<not> r_ok \<or> \<not> z_ok \<or> nnz sp_z \<noteq> nnz sp_r \<or>
          (length (o_u_c s) \<noteq> 0 \<and> length (o_u_c s) \<noteq> nnz sp_r)"
    show "\<exists>e. init E opts = Inl e"
    proof (cases "check_consistency E (read_options E opts)")
      case (Inl e)
      then show ?thesis using early by blast
    next
      case (Inr m)
      with cc have ok: "in_ok" "out_ok" "r_ok" "z_ok" "nnz sp_z = nnz sp_r" "m = nnz sp_r"
        by (auto split: if_splits)
      with f have "length (o_u_c s) \<noteq> 0 \<and> length (o_u_c s) \<noteq> m" by simp
      with Inr assms(1) show ?thesis
        by (auto simp: init_def Let_def split: sum.splits option.splits)
    qed
  qed
qed

theorem init_configuration_error_witness:
  "init mixed_setup [ImplicitInput 3] = Inl ImplicitInputNotInRange \<and>
   init mixed_setup [ImplicitInput (- 1)] = Inl ImplicitInputNotInRange \<and>
   init mixed_setup [ImplicitOutput 3] = Inl ImplicitOutputNotInRange \<and>
   init mixed_setup [ImplicitOutput 2] = Inl ResidualNotDenseVector \<and>
   init mixed_setup [ImplicitInput 2] = Inl UnknownNotDenseVector \<and>
   init mixed_setup [ImplicitInput 1] = Inl (DimensionMismatch 1 2) \<and>
   init mixed_setup [Constraints [1]] = Inl (ConstraintLength 1 2) \<and>
   (\<exists>e. init mixed_setup [Constraints [1, 0, - 1]] = Inl e)"
proof -
  let ?E = mixed_setup
  let ?in_ok = "\<lambda>os. 0 \<le> o_iin (read_options ?E os) \<and>
                     o_iin (read_options ?E os) < int (length (oracle_sparsity_in ?E))"
  let ?out_ok = "\<lambda>os. 0 \<le> o_iout (read_options ?E os) \<and>
                      o_iout (read_options ?E os) < int (length (oracle_sparsity_out ?E))"
  let ?sp_z = "\<lambda>os. oracle_sparsity_in ?E ! nat (o_iin (read_options ?E os))"
  let ?sp_r = "\<lambda>os. oracle_sparsity_out ?E ! nat (o_iout (read_options ?E os))"
  let ?r_ok = "\<lambda>os. is_dense (?sp_r os) \<and> is_column (?sp_r os)"
  let ?z_ok = "\<lambda>os. is_dense (?sp_z os) \<and> is_column (?sp_z os)"
  note t = init_configuration_error [OF refl refl refl refl refl refl refl refl refl, where E = ?E]

  have "\<not> ?in_ok [ImplicitInput 3]"
    by code_simp
  then
  have c1: "init ?E [ImplicitInput 3] = Inl ImplicitInputNotInRange"
    by (rule t [where opts = "[ImplicitInput 3]", THEN conjunct1, THEN mp])

  have "\<not> ?in_ok [ImplicitInput (- 1)]"
    by code_simp
  then
  have c2: "init ?E [ImplicitInput (- 1)] = Inl ImplicitInputNotInRange"
    by (rule t [where opts = "[ImplicitInput (- 1)]", THEN conjunct1, THEN mp])

  have "?in_ok [ImplicitOutput 3] \<and> \<not> ?out_ok [ImplicitOutput 3]"
    by code_simp
  then
  have c3: "init ?E [ImplicitOutput 3] = Inl ImplicitOutputNotInRange"
    by (rule t [where opts = "[ImplicitOutput 3]", THEN conjunct2, THEN conjunct1, THEN mp])

  have "?in_ok [ImplicitOutput 2] \<and> ?out_ok [ImplicitOutput 2] \<and> \<not> ?r_ok [ImplicitOutput 2]"
    by code_simp
  then
  have c4: "init ?E [ImplicitOutput 2] = Inl ResidualNotDenseVector"
    by (rule t [where opts = "[ImplicitOutput 2]", THEN conjunct2, THEN conjunct2, THEN conjunct1, THEN mp])

  have "?in_ok [ImplicitInput 2] \<and> ?out_ok [ImplicitInput 2] \<and> ?r_ok [ImplicitInput 2] \<and>
        \<not> ?z_ok [ImplicitInput 2]"
    by code_simp
  then
  have c5: "init ?E [ImplicitInput 2] = Inl UnknownNotDenseVector"
    by (rule t [where opts = "[ImplicitInput 2]", THEN conjunct2, THEN conjunct2, THEN conjunct2, THEN conjunct1, THEN mp])

  have "?in_ok [ImplicitInput 1] \<and> ?out_ok [ImplicitInput 1] \<and> ?r_ok [ImplicitInput 1] \<and>
        ?z_ok [ImplicitInput 1] \<and> nnz (?sp_z [ImplicitInput 1]) \<noteq> nnz (?sp_r [ImplicitInput 1])"
    by code_simp
  then
  have "init ?E [ImplicitInput 1]
          = Inl (DimensionMismatch (nnz (?sp_z [ImplicitInput 1])) (nnz (?sp_r [ImplicitInput 1])))"
    by (rule t [where opts = "[ImplicitInput 1]", THEN conjunct2, THEN conjunct2, THEN conjunct2, THEN conjunct2, THEN conjunct1, THEN mp])
  moreover have "nnz (?sp_z [ImplicitInput 1]) = 1" "nnz (?sp_r [ImplicitInput 1]) = 2"
    by code_simp+
  ultimately have c6: "init ?E [ImplicitInput 1] = Inl (DimensionMismatch 1 2)"
    by simp

  have "?in_ok [Constraints [1]] \<and> ?out_ok [Constraints [1]] \<and> ?r_ok [Constraints [1]] \<and>
        ?z_ok [Constraints [1]] \<and> nnz (?sp_z [Constraints [1]]) = nnz (?sp_r [Constraints [1]]) \<and>
        oracle_function_init ?E [Constraints [1]] = None \<and>
        get_jacobian ?E (read_options ?E [Constraints [1]]) = Inr (func_of diagonal_pattern) \<and>
        jac_sparsity (func_of diagonal_pattern) = Inr diagonal_pattern \<and>
        \<not> is_singular diagonal_pattern \<and>
        linsol_create ?E (o_linear_solver (read_options ?E [Constraints [1]]))
          (o_linear_solver_options (read_options ?E [Constraints [1]])) = Inr () \<and>
        length (o_u_c (read_options ?E [Constraints [1]])) \<noteq> nnz (?sp_r [Constraints [1]]) \<and>
        o_u_c (read_options ?E [Constraints [1]]) \<noteq> []"
    by code_simp
  then
  have "init ?E [Constraints [1]]
          = Inl (ConstraintLength (length (o_u_c (read_options ?E [Constraints [1]])))
                   (nnz (?sp_r [Constraints [1]])))"
    by (rule t [where opts = "[Constraints [1]]" and jac = "func_of diagonal_pattern"
            and sp = diagonal_pattern and ls = "()", THEN conjunct2, THEN conjunct2, THEN conjunct2, THEN conjunct2, THEN conjunct2, THEN conjunct1, THEN mp])
  moreover have "length (o_u_c (read_options ?E [Constraints [1]])) = 1"
    "nnz (?sp_r [Constraints [1]]) = 2"
    by code_simp+
  ultimately have c7: "init ?E [Constraints [1]] = Inl (ConstraintLength 1 2)"
    by simp

  have "length (o_u_c (read_options ?E [Constraints [1, 0, - 1]])) \<noteq> 0 \<and>
        length (o_u_c (read_options ?E [Constraints [1, 0, - 1]]))
          \<noteq> nnz (?sp_r [Constraints [1, 0, - 1]])"
    by code_simp
  then have "\<not> ?in_ok [Constraints [1, 0, - 1]] \<or> \<not> ?out_ok [Constraints [1, 0, - 1]] \<or>
        \<not> ?r_ok [Constraints [1, 0, - 1]] \<or> \<not> ?z_ok [Constraints [1, 0, - 1]] \<or>
        nnz (?sp_z [Constraints [1, 0, - 1]]) \<noteq> nnz (?sp_r [Constraints [1, 0, - 1]]) \<or>
        (length (o_u_c (read_options ?E [Constraints [1, 0, - 1]])) \<noteq> 0 \<and>
         length (o_u_c (read_options ?E [Constraints [1, 0, - 1]]))
           \<noteq> nnz (?sp_r [Constraints [1, 0, - 1]]))"
    by blast
  then
  have c8: "\<exists>e. init ?E [Constraints [1, 0, - 1]] = Inl e"
    by (rule t [where opts = "[Constraints [1, 0, - 1]]", THEN conjunct2, THEN conjunct2, THEN conjunct2, THEN conjunct2, THEN conjunct2, THEN conjunct2, THEN mp])

  from c1 c2 c3 c4 c5 c6 c7 c8 show ?thesis
    by blast
qed

section \<open>Structural dependency propagation\<close>

text \<open>
  Claim C4. \<open>Rootfinder::sp_fwd\<close> hands the oracle a null pointer for the unknown
  input and obtains the residual's bits \<open>dr\<close> from the oracle's forward propagation;
  the root output's bits are \<open>spsolve\<close> with \<open>tr = false\<close> applied to \<open>dr\<close> and a
  zero-filled buffer; when there is more than one output, every auxiliary output's bits
  come from a second forward propagation in which the solved bits stand for the unknown.
  The hypotheses say that the buffers have the sizes the node allocates.
\<close>

theorem sp_fwd_solves_for_root:
  assumes "2 * n rf \<le> length w" and "iin rf < length arg" and "iout rf < length res"
    and "\<forall>b. res ! iout rf = Some b \<longrightarrow> n rf \<le> length b"
    and "dr = oracle_sp_fwd S (arg[iin rf := None])
                ((replicate (length res) None)[iout rf := Some (take (n rf) w)]) (iout rf)"
    and "z = spsolve S (sp_jac rf) (replicate (n rf) 0) dr False"
    and "n rf \<le> length z"
  shows "\<exists>res'. sp_fwd S rf arg res w = Inr res' \<and> length res' = length res \<and>
           res' ! iout rf = map_option (\<lambda>b. take (n rf) z @ drop (n rf) b) (res ! iout rf) \<and>
           (1 < length res \<longrightarrow>
              (\<forall>i < length res. i \<noteq> iout rf \<longrightarrow>
                 res' ! i = map_option (\<lambda>_. oracle_sp_fwd S (arg[iin rf := Some z])
                                          (res[iout rf := None]) i) (res ! i)))"
proof (cases "res ! iout rf")
  case None
  with assms show ?thesis
    by (simp add: sp_fwd_def Let_def seq_def idx_def set_idx_def fill_n_def copy_n_def
          call_sp_fwd_def take_back_def list_update_same_conv)
next
  case (Some b)
  with assms show ?thesis
    by (simp add: sp_fwd_def Let_def seq_def idx_def set_idx_def fill_n_def copy_n_def
          call_sp_fwd_def take_back_def)
qed

theorem sp_fwd_solves_for_root_witness:
  "2 * n sq_rootfinder \<le> length [0, 0 :: bvec] \<and>
   iin sq_rootfinder < length [Some [1], Some [2 :: bvec]] \<and>
   iout sq_rootfinder < length [Some [8], Some [8 :: bvec]] \<and>
   [Some [8], Some [8 :: bvec]] ! iout sq_rootfinder = Some [8] \<and>
   n sq_rootfinder \<le> length [8 :: bvec] \<and>
   n sq_rootfinder \<le> length [2 :: bvec] \<and>
   (\<exists>res'. sp_fwd sq_sp_env sq_rootfinder [Some [1], Some [2]] [Some [8], Some [8]] [0, 0] = Inr res' \<and>
           res' ! 0 = Some [2] \<and> res' ! 1 = Some [2])"
proof -
  let ?arg = "[Some [1], Some [2 :: bvec]]" and ?res = "[Some [8], Some [8 :: bvec]]"
  let ?dr = "oracle_sp_fwd sq_sp_env (?arg[iin sq_rootfinder := None])
               ((replicate (length ?res) None)[iout sq_rootfinder := Some (take (n sq_rootfinder) [0, 0])])
               (iout sq_rootfinder)"
  let ?z = "spsolve sq_sp_env (sp_jac sq_rootfinder) (replicate (n sq_rootfinder) 0) ?dr False"
  have h1: "2 * n sq_rootfinder \<le> length [0, 0 :: bvec]"
    and h2: "iin sq_rootfinder < length ?arg"
    and h3: "iout sq_rootfinder < length ?res"
    and h4: "\<forall>b. ?res ! iout sq_rootfinder = Some b \<longrightarrow> n sq_rootfinder \<le> length b"
    by (simp_all add: sq_rootfinder_def)
  have z: "?z = [2]"
    by (simp add: sq_rootfinder_def sq_sp_env_def or_all_def first_word_def)
  then have h5: "n sq_rootfinder \<le> length ?z"
    by (simp add: sq_rootfinder_def)
  from sp_fwd_solves_for_root [OF h1 h2 h3 h4 refl refl h5]
  obtain res' where r: "sp_fwd sq_sp_env sq_rootfinder ?arg ?res [0, 0] = Inr res'"
    and r0: "res' ! iout sq_rootfinder
               = map_option (\<lambda>b. take (n sq_rootfinder) ?z @ drop (n sq_rootfinder) b)
                   (?res ! iout sq_rootfinder)"
    and r1: "1 < length ?res \<longrightarrow> (\<forall>i < length ?res. i \<noteq> iout sq_rootfinder \<longrightarrow>
               res' ! i = map_option (\<lambda>_. oracle_sp_fwd sq_sp_env (?arg[iin sq_rootfinder := Some ?z])
                                        (?res[iout sq_rootfinder := None]) i) (?res ! i))"
    by blast
  from r0 have a: "res' ! 0 = Some [2]"
    unfolding z by (simp add: sq_rootfinder_def)
  from r1 have "res' ! 1 = map_option (\<lambda>_. oracle_sp_fwd sq_sp_env (?arg[iin sq_rootfinder := Some ?z])
                                        (?res[iout sq_rootfinder := None]) 1) (?res ! 1)"
    by (simp add: sq_rootfinder_def)
  then have b: "res' ! 1 = Some [2]"
    unfolding z by (simp add: sq_rootfinder_def sq_sp_env_def or_all_def first_word_def)
  from h1 h2 h3 h4 r a b show ?thesis
    by (simp add: sq_rootfinder_def)
qed



section \<open>Forward sensitivities\<close>

text \<open>
  Claim C1. In \<open>Rootfinder::forward\<close>, for every direction \<open>d\<close> of the \<open>nfwd\<close> seed
  directions, the sensitivity of the root output \<open>iout_\<close> is column \<open>d\<close> of one
  non-transposed solve with the Jacobian \<open>J\<close> and the right-hand side \<open>-horzcat(rhs)\<close>,
  reshaped to the size of the unknown. \<open>J\<close> is the first output of \<open>jac_f_z\<close> called
  on the inputs with the unknown replaced by the root \<open>res[iout_]\<close>; \<open>rhs[d]\<close> is the
  seed \<open>dr[d][iout_]\<close> on the residual that the oracle's forward propagation returns
  for the seeds with the guess seed zeroed, the residual output held at zero.
\<close>

theorem forward_root_sensitivity:
  assumes "forward M rf arg res fseed fsens0 = Inr fsens" and "fseed \<noteq> []"
    and "zero = mx_zeros M (size_in M (iin rf))"
    and "f_arg = arg[iin rf := res ! iout rf]"
    and "f_res = res[iout rf := zero]"
    and "f_fseed = map (\<lambda>s. s[iin rf := zero]) fseed"
  shows "\<exists>dr Js.
      oracle_forward M f_arg f_res f_fseed (resize (length fseed) [] fsens0) = Inr dr \<and>
      jac_call M f_arg = Inr Js \<and> Js \<noteq> [] \<and>
      (\<forall>d<length fseed.
         fsens ! d ! iout rf =
           mx_reshape M
             (mx_horzsplit M
                (mx_getSolve M (hd Js)
                   (mx_neg M (mx_horzcat M (map (\<lambda>e. mx_vec M (dr ! e ! iout rf)) [0..<length fseed])))
                   False) ! d)
             (size_in M (iin rf)))"
proof -
  let ?k = "length fseed"
  from forward_steps [OF assms(1,2,3,4,5) refl]
  obtain ff dr Js rhs fs2 where
    z: "for_each [0..<?k] (\<lambda>d f. seq (set_at (f ! d) (iin rf) zero) (\<lambda>s. Inr (f[d := s]))) fseed = Inr ff"
    and o1: "oracle_forward M f_arg f_res ff (resize ?k [] fsens0) = Inr dr"
    and j: "jac_call M f_arg = Inr Js" "Js \<noteq> []"
    and c: "collect [0..<?k] (rhs_of M (iout rf) dr) = Inr rhs"
    and st: "for_each [0..<?k]
        (\<lambda>d fs. seq (idx (mx_horzsplit M (mx_getSolve M (hd Js) (mx_neg M (mx_horzcat M rhs)) False)) d)
           (\<lambda>x. modify_at (iout rf) (\<lambda>_. Inr (mx_reshape M x (size_in M (iin rf)))) d fs)) dr
        = Inr fs2"
    and rest: "if 1 < n_out M then
         \<exists>f_fseed2 fs3.
           for_each [0..<?k] (assign_from (iin rf) fs2 (iout rf)) ff = Inr f_fseed2 \<and>
           oracle_forward M f_arg f_res f_fseed2 fs2 = Inr fs3 \<and>
           for_each [0..<?k] (assign_from (iout rf) f_fseed2 (iin rf)) fs3 = Inr fsens
       else fsens = fs2"
    by blast
  let ?sol = "mx_horzsplit M (mx_getSolve M (hd Js) (mx_neg M (mx_horzcat M rhs)) False)"
  from z have ff: "ff = f_fseed"
    by (simp add: zero_loop_all assms(6) split: if_splits)
  from rhs_collect [OF c] have rhs: "rhs = map (\<lambda>e. mx_vec M (dr ! e ! iout rf)) [0..<?k]"
    by simp
  from store_loop [OF st]
  have s2: "\<forall>d<?k. iout rf < length (dr ! d) \<and>
      fs2 ! d = (dr ! d)[iout rf := mx_reshape M (?sol ! d) (size_in M (iin rf))]"
    by simp
  then have dz: "\<forall>d<?k. fs2 ! d ! iout rf = mx_reshape M (?sol ! d) (size_in M (iin rf))"
    by simp
  have fin: "\<forall>d<?k. fsens ! d ! iout rf = fs2 ! d ! iout rf"
  proof (cases "1 < n_out M")
    case False
    with rest show ?thesis by simp
  next
    case True
    with rest obtain f2 fs3 where
      a1: "for_each [0..<?k] (assign_from (iin rf) fs2 (iout rf)) ff = Inr f2"
      and a2: "for_each [0..<?k] (assign_from (iout rf) f2 (iin rf)) fs3 = Inr fsens"
      by auto
    from assign_loop [OF a1]
    have f2: "\<forall>d<?k. iin rf < length (ff ! d) \<and> f2 ! d = (ff ! d)[iin rf := fs2 ! d ! iout rf]"
      by simp
    from assign_loop [OF a2]
    have f3: "\<forall>d<?k. iout rf < length (fs3 ! d) \<and> fsens ! d = (fs3 ! d)[iout rf := f2 ! d ! iin rf]"
      by simp
    show ?thesis using f2 f3 by simp
  qed
  show ?thesis
    using o1 j dz fin unfolding ff rhs by auto
qed

theorem forward_root_sensitivity_witness:
  "forward (sq_node 2) sq_rootfinder [scalar 7, scalar 4] [scalar 2, scalar 6]
     [[scalar 5, scalar 1]] [] = Inr [[scalar (1 / 4), scalar (5 / 4)]] \<and>
   [[scalar 5, scalar 1]] \<noteq> [] \<and>
   (\<exists>dr Js.
      oracle_forward (sq_node 2) [scalar 2, scalar 4] [scalar 0, scalar 6]
        [[scalar 0, scalar 1]] [[]] = Inr dr \<and>
      jac_call (sq_node 2) [scalar 2, scalar 4] = Inr Js \<and> Js \<noteq> [] \<and>
      scalar (1 / 4) =
        mx_reshape (sq_node 2)
          (mx_horzsplit (sq_node 2)
             (mx_getSolve (sq_node 2) (hd Js)
                (mx_neg (sq_node 2) (mx_horzcat (sq_node 2) [mx_vec (sq_node 2) (dr ! 0 ! 0)]))
                False) ! 0)
          (1, 1))"
proof -
  have h1: "forward (sq_node 2) sq_rootfinder [scalar 7, scalar 4] [scalar 2, scalar 6]
     [[scalar 5, scalar 1]] [] = Inr [[scalar (1 / 4), scalar (5 / 4)]]"
    by code_simp
  have h2: "[[scalar 5, scalar 1]] \<noteq> []"
    by simp
  have z: "mx_zeros (sq_node 2) (size_in (sq_node 2) (iin sq_rootfinder)) = scalar 0"
    by (simp add: sq_node_def scalar_def)
  from forward_root_sensitivity [OF h1 h2 refl refl refl refl]
  have "\<exists>dr Js.
      oracle_forward (sq_node 2) [scalar 2, scalar 4] [scalar 0, scalar 6]
        [[scalar 0, scalar 1]] [[]] = Inr dr \<and>
      jac_call (sq_node 2) [scalar 2, scalar 4] = Inr Js \<and> Js \<noteq> [] \<and>
      scalar (1 / 4) =
        mx_reshape (sq_node 2)
          (mx_horzsplit (sq_node 2)
             (mx_getSolve (sq_node 2) (hd Js)
                (mx_neg (sq_node 2) (mx_horzcat (sq_node 2) [mx_vec (sq_node 2) (dr ! 0 ! 0)]))
                False) ! 0)
          (size_in (sq_node 2) 0)"
    unfolding z by (simp add: sq_rootfinder_def resize_def)
  moreover have "size_in (sq_node 2) 0 = (1, 1)"
    by (simp add: sq_node_def)
  ultimately show ?thesis using h1 h2 by simp
qed

text \<open>
  Claim C3. The forward seed supplied for the unknown input \<open>iin_\<close> has no influence on
  what \<open>Rootfinder::forward\<close> returns: two calls whose seeds differ only in the entries
  \<open>fseed[d][iin_]\<close> return the same result, sensitivities and failures alike.
\<close>

theorem forward_ignores_guess_seed:
  assumes "length fseed' = length fseed"
    and "\<forall>d<length fseed. length (fseed' ! d) = length (fseed ! d) \<and>
           (\<forall>i. i \<noteq> iin rf \<longrightarrow> fseed' ! d ! i = fseed ! d ! i)"
  shows "forward M rf arg res fseed' fsens0 = forward M rf arg res fseed fsens0"
proof -
  let ?z = "mx_zeros M (size_in M (iin rf))"
  let ?body = "\<lambda>d f. seq (set_at (f ! d) (iin rf) ?z) (\<lambda>s. Inr (f[d := s]))"
  have ok: "(\<forall>s \<in> set fseed'. iin rf < length s) = (\<forall>s \<in> set fseed. iin rf < length s)"
    using assms by (simp add: all_set_conv_all_nth)
  have "map (\<lambda>s. s[iin rf := ?z]) fseed' = map (\<lambda>s. s[iin rf := ?z]) fseed"
  proof (rule nth_equalityI)
    show "length (map (\<lambda>s. s[iin rf := ?z]) fseed') = length (map (\<lambda>s. s[iin rf := ?z]) fseed)"
      using assms(1) by simp
  next
    fix d assume "d < length (map (\<lambda>s. s[iin rf := ?z]) fseed')"
    then have d: "d < length fseed" "d < length fseed'" using assms(1) by simp_all
    from assms(2) d have len: "length (fseed' ! d) = length (fseed ! d)"
      and same: "\<And>i. i \<noteq> iin rf \<Longrightarrow> fseed' ! d ! i = fseed ! d ! i"
      by simp_all
    have "(fseed' ! d)[iin rf := ?z] = (fseed ! d)[iin rf := ?z]"
    proof (rule nth_equalityI)
      show "length ((fseed' ! d)[iin rf := ?z]) = length ((fseed ! d)[iin rf := ?z])"
        using len by simp
    next
      fix i assume "i < length ((fseed' ! d)[iin rf := ?z])"
      then have "i < length (fseed ! d)" "i < length (fseed' ! d)" using len by simp_all
      then show "(fseed' ! d)[iin rf := ?z] ! i = (fseed ! d)[iin rf := ?z] ! i"
        using same [of i] by (cases "i = iin rf") simp_all
    qed
    then show "map (\<lambda>s. s[iin rf := ?z]) fseed' ! d = map (\<lambda>s. s[iin rf := ?z]) fseed ! d"
      using d by simp
  qed
  with ok have "for_each [0..<length fseed'] ?body fseed' = for_each [0..<length fseed] ?body fseed"
    by (simp only: zero_loop_all)
  then show ?thesis
    unfolding forward_def Let_def by (simp only: assms(1))
qed

theorem forward_ignores_guess_seed_witness:
  "length [[scalar 5, scalar 1]] = length [[scalar 0, scalar 1]] \<and>
   length ([[scalar 5, scalar 1]] ! 0) = length ([[scalar 0, scalar 1]] ! 0) \<and>
   [[scalar 5, scalar 1]] ! 0 ! 1 = [[scalar 0, scalar 1]] ! 0 ! 1 \<and>
   [[scalar 5, scalar 1]] ! 0 ! iin sq_rootfinder \<noteq> [[scalar 0, scalar 1]] ! 0 ! iin sq_rootfinder \<and>
   forward (sq_node 2) sq_rootfinder [scalar 7, scalar 4] [scalar 2, scalar 6]
     [[scalar 5, scalar 1]] []
   = forward (sq_node 2) sq_rootfinder [scalar 7, scalar 4] [scalar 2, scalar 6]
     [[scalar 0, scalar 1]] []"
proof -
  have h1: "length [[scalar 5, scalar 1]] = length [[scalar 0, scalar 1]]"
    by simp
  have h2: "\<forall>d<length [[scalar 0, scalar 1]].
      length ([[scalar 5, scalar 1]] ! d) = length ([[scalar 0, scalar 1]] ! d) \<and>
      (\<forall>i. i \<noteq> iin sq_rootfinder \<longrightarrow> [[scalar 5, scalar 1]] ! d ! i = [[scalar 0, scalar 1]] ! d ! i)"
    by (simp add: sq_rootfinder_def nth_Cons split: nat.splits)
  have h3: "[[scalar 5, scalar 1]] ! 0 ! iin sq_rootfinder
              \<noteq> [[scalar 0, scalar 1]] ! 0 ! iin sq_rootfinder"
    by (simp add: sq_rootfinder_def scalar_def)
  from forward_ignores_guess_seed [OF h1 h2] h3 show ?thesis
    by simp
qed

text \<open>
  Claim C6. When the oracle has more than one output, \<open>Rootfinder::forward\<close> runs the
  oracle's forward propagation a second time, with the solved \<open>dz\<close> as the seed of the
  unknown input; the result of that pass is returned for every auxiliary output, and
  the root output's entry is set back to \<open>dz\<close>.
\<close>

theorem forward_auxiliary_outputs:
  assumes "forward M rf arg res fseed fsens0 = Inr fsens" and "fseed \<noteq> []"
    and "1 < n_out M"
    and "zero = mx_zeros M (size_in M (iin rf))"
    and "f_arg = arg[iin rf := res ! iout rf]"
    and "f_res = res[iout rf := zero]"
  shows "\<exists>dr Js dz pre aux.
      oracle_forward M f_arg f_res (map (\<lambda>s. s[iin rf := zero]) fseed)
        (resize (length fseed) [] fsens0) = Inr dr \<and>
      jac_call M f_arg = Inr Js \<and> Js \<noteq> [] \<and>
      dz = map (\<lambda>d. mx_reshape M
                  (mx_horzsplit M
                     (mx_getSolve M (hd Js)
                        (mx_neg M (mx_horzcat M
                           (map (\<lambda>e. mx_vec M (dr ! e ! iout rf)) [0..<length fseed])))
                        False) ! d)
                  (size_in M (iin rf))) [0..<length fseed] \<and>
      (\<forall>d<length fseed. pre ! d = (dr ! d)[iout rf := dz ! d]) \<and>
      oracle_forward M f_arg f_res
        (map (\<lambda>d. (fseed ! d)[iin rf := dz ! d]) [0..<length fseed]) pre = Inr aux \<and>
      (\<forall>d<length fseed. iout rf < length (aux ! d) \<and> fsens ! d = (aux ! d)[iout rf := dz ! d])"
proof -
  let ?k = "length fseed"
  from forward_steps [OF assms(1,2,4,5,6) refl] assms(3)
  obtain ff dr Js rhs fs2 f2 fs3 where
    z: "for_each [0..<?k] (\<lambda>d f. seq (set_at (f ! d) (iin rf) zero) (\<lambda>s. Inr (f[d := s]))) fseed = Inr ff"
    and o1: "oracle_forward M f_arg f_res ff (resize ?k [] fsens0) = Inr dr"
    and j: "jac_call M f_arg = Inr Js" "Js \<noteq> []"
    and c: "collect [0..<?k] (rhs_of M (iout rf) dr) = Inr rhs"
    and st: "for_each [0..<?k]
        (\<lambda>d fs. seq (idx (mx_horzsplit M (mx_getSolve M (hd Js) (mx_neg M (mx_horzcat M rhs)) False)) d)
           (\<lambda>x. modify_at (iout rf) (\<lambda>_. Inr (mx_reshape M x (size_in M (iin rf)))) d fs)) dr
        = Inr fs2"
    and a1: "for_each [0..<?k] (assign_from (iin rf) fs2 (iout rf)) ff = Inr f2"
    and o2: "oracle_forward M f_arg f_res f2 fs2 = Inr fs3"
    and a2: "for_each [0..<?k] (assign_from (iout rf) f2 (iin rf)) fs3 = Inr fsens"
    by auto
  let ?sol = "mx_horzsplit M (mx_getSolve M (hd Js) (mx_neg M (mx_horzcat M rhs)) False)"
  define dz where "dz = map (\<lambda>d. mx_reshape M (?sol ! d) (size_in M (iin rf))) [0..<?k]"
  have dzn: "\<forall>d<?k. dz ! d = mx_reshape M (?sol ! d) (size_in M (iin rf))"
    by (simp add: dz_def)
  from z have ff: "ff = map (\<lambda>s. s[iin rf := zero]) fseed" and inr: "\<forall>s\<in>set fseed. iin rf < length s"
    by (simp_all add: zero_loop_all split: if_splits)
  from rhs_collect [OF c] have rhs: "rhs = map (\<lambda>e. mx_vec M (dr ! e ! iout rf)) [0..<?k]"
    by simp
  from store_loop [OF st]
  have s2: "?k \<le> length dr" "length fs2 = length dr"
    "\<forall>d<?k. iout rf < length (dr ! d) \<and> fs2 ! d = (dr ! d)[iout rf := dz ! d]"
    using dzn by simp_all
  from assign_loop [OF a1]
  have f2: "length f2 = length ff"
    "\<forall>d<?k. iin rf < length (ff ! d) \<and> f2 ! d = (ff ! d)[iin rf := fs2 ! d ! iout rf]"
    by simp_all
  from assign_loop [OF a2]
  have f3: "\<forall>d<?k. iout rf < length (fs3 ! d) \<and> fsens ! d = (fs3 ! d)[iout rf := f2 ! d ! iin rf]"
    by simp
  have f2eq: "f2 = map (\<lambda>d. (fseed ! d)[iin rf := dz ! d]) [0..<?k]"
  proof (rule nth_equalityI)
    show "length f2 = length (map (\<lambda>d. (fseed ! d)[iin rf := dz ! d]) [0..<?k])"
      using f2(1) ff by simp
  next
    fix d assume "d < length f2"
    then have d: "d < ?k" using f2(1) ff by simp
    then show "f2 ! d = map (\<lambda>d. (fseed ! d)[iin rf := dz ! d]) [0..<?k] ! d"
      using f2(2) s2(3) ff by simp
  qed
  have fin: "\<forall>d<?k. iout rf < length (fs3 ! d) \<and> fsens ! d = (fs3 ! d)[iout rf := dz ! d]"
  proof (intro allI impI)
    fix d assume d: "d < ?k"
    then have "iin rf < length (fseed ! d)" using inr by simp
    then have "f2 ! d ! iin rf = dz ! d" using d f2eq by simp
    then show "iout rf < length (fs3 ! d) \<and> fsens ! d = (fs3 ! d)[iout rf := dz ! d]"
      using f3 d by simp
  qed
  show ?thesis
    using o1 j s2(3) o2 fin unfolding ff rhs f2eq dz_def rhs by blast
qed

theorem forward_auxiliary_outputs_witness:
  "forward (sq_node 2) sq_rootfinder [scalar 7, scalar 4] [scalar 2, scalar 6]
     [[scalar 5, scalar 1]] [] = Inr [[scalar (1 / 4), scalar (5 / 4)]] \<and>
   [[scalar 5, scalar 1]] \<noteq> [] \<and> 1 < n_out (sq_node 2) \<and>
   (\<exists>dz pre aux.
      oracle_forward (sq_node 2) [scalar 2, scalar 4] [scalar 0, scalar 6]
        [[dz, scalar 1]] pre = Inr aux \<and>
      [scalar (1 / 4), scalar (5 / 4)] = (aux ! 0)[0 := dz])"
proof -
  have h1: "forward (sq_node 2) sq_rootfinder [scalar 7, scalar 4] [scalar 2, scalar 6]
     [[scalar 5, scalar 1]] [] = Inr [[scalar (1 / 4), scalar (5 / 4)]]"
    by code_simp
  have h2: "[[scalar 5, scalar 1]] \<noteq> []"
    by simp
  have h3: "1 < n_out (sq_node 2)"
    by (simp add: sq_node_def)
  have z: "mx_zeros (sq_node 2) (size_in (sq_node 2) (iin sq_rootfinder)) = scalar 0"
    by (simp add: sq_node_def scalar_def)
  from forward_auxiliary_outputs [OF h1 h2 h3 refl refl refl]
  obtain dz pre aux where
    "oracle_forward (sq_node 2)
       ([scalar 7, scalar 4][iin sq_rootfinder := [scalar 2, scalar 6] ! iout sq_rootfinder])
       ([scalar 2, scalar 6][iout sq_rootfinder := mx_zeros (sq_node 2) (size_in (sq_node 2) (iin sq_rootfinder))])
       (map (\<lambda>d. ([[scalar 5, scalar 1]] ! d)[iin sq_rootfinder := dz ! d]) [0..<length [[scalar 5, scalar 1]]])
       pre = Inr aux"
    and "\<forall>d<length [[scalar 5, scalar 1]]. iout sq_rootfinder < length (aux ! d) \<and>
           [[scalar (1 / 4), scalar (5 / 4)]] ! d = (aux ! d)[iout sq_rootfinder := dz ! d]"
    by blast
  then have "oracle_forward (sq_node 2) [scalar 2, scalar 4] [scalar 0, scalar 6]
        [[dz ! 0, scalar 1]] pre = Inr aux"
    and "[scalar (1 / 4), scalar (5 / 4)] = (aux ! 0)[0 := dz ! 0]"
    unfolding z by (simp_all add: sq_rootfinder_def)
  with h1 h2 h3 show ?thesis by blast
qed

section \<open>Adjoint sensitivities\<close>

text \<open>
  Claim C2. In \<open>Rootfinder::reverse\<close>, the adjoint multipliers of all \<open>nadj\<close>
  directions are the columns of one transposed solve with the Jacobian and the right-hand
  side \<open>-horzcat(rhs)\<close>. With a single output, \<open>rhs[d]\<close> is the adjoint seed
  \<open>aseed[d][iout_]\<close> on the residual output. With auxiliary outputs, it is that seed
  added to the entry for the unknown that the oracle's reverse propagation returns for
  the auxiliary seeds, the residual output's seed held at zero. The multipliers are the
  only nonzero seeds of the oracle's final reverse propagation, from which the adjoint
  sensitivities of the other inputs are taken.
\<close>

theorem reverse_adjoint_solve:
  assumes "reverse M rf arg res aseed asens0 = Inr asens" and "aseed \<noteq> []"
    and "zero = mx_zeros M (size_in M (iin rf))"
    and "f_arg = arg[iin rf := res ! iout rf]"
    and "f_res = res[iout rf := zero]"
    and "f_aseed = map (\<lambda>d. map (\<lambda>i. if i = iout rf then zero else aseed ! d ! i) [0..<n_out M])
                     [0..<length aseed]"
  shows "\<exists>Js aux rhs lam pre post.
      jac_call M f_arg = Inr Js \<and> Js \<noteq> [] \<and>
      (if 1 < n_out M
       then oracle_reverse M f_arg f_res f_aseed [] = Inr aux \<and>
            rhs = map (\<lambda>d. mx_vec M (mx_add M (aux ! d ! iin rf) (aseed ! d ! iout rf)))
                    [0..<length aseed]
       else rhs = map (\<lambda>d. mx_vec M (aseed ! d ! iout rf)) [0..<length aseed]) \<and>
      lam = mx_horzsplit M (mx_getSolve M (hd Js) (mx_neg M (mx_horzcat M rhs)) True) \<and>
      oracle_reverse M f_arg f_res
        (map (\<lambda>d. map (\<lambda>i. if i = iout rf then mx_reshape M (lam ! d) (size_out M i)
                            else mx_zeros M (size_out M i)) [0..<n_out M]) [0..<length aseed])
        pre = Inr post \<and>
      (\<forall>d<length aseed. \<forall>i<n_in M. i \<noteq> iin rf \<longrightarrow>
         asens ! d ! i = (if 1 < n_out M then mx_add M (post ! d ! i) (aux ! d ! i)
                          else post ! d ! i))"
  using reverse_result [OF assms refl] by blast

theorem reverse_adjoint_solve_witness:
  "reverse (sq_node 2) sq_rootfinder [scalar 7, scalar 4] [scalar 2, scalar 6]
     [[scalar 3, scalar 1]] [] = Inr [[scalar 0, scalar 2]] \<and>
   [[scalar 3, scalar 1]] \<noteq> [] \<and>
   (\<exists>Js aux lam pre post.
      jac_call (sq_node 2) [scalar 2, scalar 4] = Inr Js \<and>
      oracle_reverse (sq_node 2) [scalar 2, scalar 4] [scalar 0, scalar 6]
        [[scalar 0, scalar 1]] [] = Inr aux \<and>
      lam = mx_horzsplit (sq_node 2)
              (mx_getSolve (sq_node 2) (hd Js)
                 (mx_neg (sq_node 2) (mx_horzcat (sq_node 2)
                    [mx_vec (sq_node 2) (mx_add (sq_node 2) (aux ! 0 ! 0) (scalar 3))]))
                 True) \<and>
      oracle_reverse (sq_node 2) [scalar 2, scalar 4] [scalar 0, scalar 6]
        [[mx_reshape (sq_node 2) (lam ! 0) (1, 1), scalar 0]] pre = Inr post \<and>
      scalar 2 = mx_add (sq_node 2) (post ! 0 ! 1) (aux ! 0 ! 1)) \<and>
   reverse (sq_node 1) sq_rootfinder [scalar 7, scalar 4] [scalar 2] [[scalar 1]] []
     = Inr [[scalar 0, scalar (1 / 4)]] \<and>
   [[scalar 1]] \<noteq> [] \<and>
   (\<exists>Js lam pre post.
      jac_call (sq_node 1) [scalar 2, scalar 4] = Inr Js \<and>
      lam = mx_horzsplit (sq_node 1)
              (mx_getSolve (sq_node 1) (hd Js)
                 (mx_neg (sq_node 1) (mx_horzcat (sq_node 1) [mx_vec (sq_node 1) (scalar 1)]))
                 True) \<and>
      oracle_reverse (sq_node 1) [scalar 2, scalar 4] [scalar 0]
        [[mx_reshape (sq_node 1) (lam ! 0) (1, 1)]] pre = Inr post \<and>
      scalar (1 / 4) = post ! 0 ! 1)"
proof -
  have h1: "reverse (sq_node 2) sq_rootfinder [scalar 7, scalar 4] [scalar 2, scalar 6]
     [[scalar 3, scalar 1]] [] = Inr [[scalar 0, scalar 2]]"
    by code_simp
  have h2: "[[scalar 3, scalar 1]] \<noteq> []"
    by simp
  have z: "mx_zeros (sq_node 2) (size_in (sq_node 2) (iin sq_rootfinder)) = scalar 0"
    "mx_zeros (sq_node 2) (size_out (sq_node 2) (Suc 0)) = scalar 0"
    by (simp_all add: sq_node_def scalar_def)
  have k: "n_out (sq_node 2) = 2" "n_in (sq_node 2) = 2" "size_out (sq_node 2) 0 = (1, 1)"
    by (simp_all add: sq_node_def)
  have u: "[0..<2] = [0, Suc 0]"
    by (simp add: upt_rec)
  from reverse_adjoint_solve [OF h1 h2 refl refl refl refl]
  obtain Js aux lam pre post where
    j: "jac_call (sq_node 2)
          ([scalar 7, scalar 4][iin sq_rootfinder := [scalar 2, scalar 6] ! iout sq_rootfinder])
        = Inr Js"
    and a: "oracle_reverse (sq_node 2)
          ([scalar 7, scalar 4][iin sq_rootfinder := [scalar 2, scalar 6] ! iout sq_rootfinder])
          ([scalar 2, scalar 6][iout sq_rootfinder := scalar 0])
          (map (\<lambda>d. map (\<lambda>i. if i = iout sq_rootfinder then scalar 0
                               else [[scalar 3, scalar 1]] ! d ! i) [0, Suc 0])
             [0..<length [[scalar 3, scalar 1]]]) [] = Inr aux"
    and l: "lam = mx_horzsplit (sq_node 2)
              (mx_getSolve (sq_node 2) (hd Js)
                 (mx_neg (sq_node 2) (mx_horzcat (sq_node 2)
                    (map (\<lambda>d. mx_vec (sq_node 2)
                            (mx_add (sq_node 2) (aux ! d ! iin sq_rootfinder)
                               ([[scalar 3, scalar 1]] ! d ! iout sq_rootfinder)))
                       [0..<length [[scalar 3, scalar 1]]])))
                 True)"
    and o: "oracle_reverse (sq_node 2)
          ([scalar 7, scalar 4][iin sq_rootfinder := [scalar 2, scalar 6] ! iout sq_rootfinder])
          ([scalar 2, scalar 6][iout sq_rootfinder := scalar 0])
          (map (\<lambda>d. map (\<lambda>i. if i = iout sq_rootfinder
                               then mx_reshape (sq_node 2) (lam ! d) (size_out (sq_node 2) i)
                               else mx_zeros (sq_node 2) (size_out (sq_node 2) i)) [0, Suc 0])
             [0..<length [[scalar 3, scalar 1]]]) pre = Inr post"
    and f: "\<forall>d<length [[scalar 3, scalar 1]]. \<forall>i<2. i \<noteq> iin sq_rootfinder \<longrightarrow>
              [[scalar 0, scalar 2]] ! d ! i
                = mx_add (sq_node 2) (post ! d ! i) (aux ! d ! i)"
    unfolding z k u by (auto split: if_splits)
  from j have j': "jac_call (sq_node 2) [scalar 2, scalar 4] = Inr Js"
    by (simp add: sq_rootfinder_def)
  from a have a': "oracle_reverse (sq_node 2) [scalar 2, scalar 4] [scalar 0, scalar 6]
        [[scalar 0, scalar 1]] [] = Inr aux"
    by (simp add: sq_rootfinder_def)
  from l have l': "lam = mx_horzsplit (sq_node 2)
              (mx_getSolve (sq_node 2) (hd Js)
                 (mx_neg (sq_node 2) (mx_horzcat (sq_node 2)
                    [mx_vec (sq_node 2) (mx_add (sq_node 2) (aux ! 0 ! 0) (scalar 3))]))
                 True)"
    by (simp add: sq_rootfinder_def)
  from o have o': "oracle_reverse (sq_node 2) [scalar 2, scalar 4] [scalar 0, scalar 6]
        [[mx_reshape (sq_node 2) (lam ! 0) (1, 1), scalar 0]] pre = Inr post"
    by (simp add: sq_rootfinder_def z k)
  from f have f': "scalar 2 = mx_add (sq_node 2) (post ! 0 ! 1) (aux ! 0 ! 1)"
    by (simp add: sq_rootfinder_def)
  have two: "\<exists>Js aux lam pre post.
      jac_call (sq_node 2) [scalar 2, scalar 4] = Inr Js \<and>
      oracle_reverse (sq_node 2) [scalar 2, scalar 4] [scalar 0, scalar 6]
        [[scalar 0, scalar 1]] [] = Inr aux \<and>
      lam = mx_horzsplit (sq_node 2)
              (mx_getSolve (sq_node 2) (hd Js)
                 (mx_neg (sq_node 2) (mx_horzcat (sq_node 2)
                    [mx_vec (sq_node 2) (mx_add (sq_node 2) (aux ! 0 ! 0) (scalar 3))]))
                 True) \<and>
      oracle_reverse (sq_node 2) [scalar 2, scalar 4] [scalar 0, scalar 6]
        [[mx_reshape (sq_node 2) (lam ! 0) (1, 1), scalar 0]] pre = Inr post \<and>
      scalar 2 = mx_add (sq_node 2) (post ! 0 ! 1) (aux ! 0 ! 1)"
    using j' a' l' o' f' by blast
  have g1: "reverse (sq_node 1) sq_rootfinder [scalar 7, scalar 4] [scalar 2] [[scalar 1]] []
     = Inr [[scalar 0, scalar (1 / 4)]]"
    by code_simp
  have g2: "[[scalar 1]] \<noteq> []"
    by simp
  have z1: "mx_zeros (sq_node (Suc 0)) (size_in (sq_node (Suc 0)) 0) = scalar 0"
    by (simp add: sq_node_def scalar_def)
  have k1: "n_out (sq_node (Suc 0)) = Suc 0" "n_in (sq_node (Suc 0)) = 2"
    "size_out (sq_node (Suc 0)) 0 = (Suc 0, Suc 0)"
    by (simp_all add: sq_node_def)
  let ?M = "sq_node 1"
  let ?zero = "mx_zeros ?M (size_in ?M (iin sq_rootfinder))"
  let ?f_arg = "[scalar 7, scalar 4][iin sq_rootfinder := [scalar 2] ! iout sq_rootfinder]"
  let ?f_res = "[scalar 2][iout sq_rootfinder := ?zero]"
  from reverse_adjoint_solve [OF g1 g2 refl refl refl refl]
  obtain Js1 aux1 rhs1 lam1 pre1 post1 where
    sj: "jac_call ?M ?f_arg = Inr Js1"
    and sr: "if 1 < n_out ?M
       then oracle_reverse ?M ?f_arg ?f_res
              (map (\<lambda>d. map (\<lambda>i. if i = iout sq_rootfinder then ?zero else [[scalar 1]] ! d ! i)
                     [0..<n_out ?M]) [0..<length [[scalar 1]]]) [] = Inr aux1 \<and>
            rhs1 = map (\<lambda>d. mx_vec ?M (mx_add ?M (aux1 ! d ! iin sq_rootfinder)
                                        ([[scalar 1]] ! d ! iout sq_rootfinder)))
                     [0..<length [[scalar 1]]]
       else rhs1 = map (\<lambda>d. mx_vec ?M ([[scalar 1]] ! d ! iout sq_rootfinder))
                     [0..<length [[scalar 1]]]"
    and sl: "lam1 = mx_horzsplit ?M (mx_getSolve ?M (hd Js1) (mx_neg ?M (mx_horzcat ?M rhs1)) True)"
    and so: "oracle_reverse ?M ?f_arg ?f_res
          (map (\<lambda>d. map (\<lambda>i. if i = iout sq_rootfinder
                               then mx_reshape ?M (lam1 ! d) (size_out ?M i)
                               else mx_zeros ?M (size_out ?M i)) [0..<n_out ?M])
             [0..<length [[scalar 1]]]) pre1 = Inr post1"
    and sf: "\<forall>d<length [[scalar 1]]. \<forall>i<n_in ?M. i \<noteq> iin sq_rootfinder \<longrightarrow>
              [[scalar 0, scalar (1 / 4)]] ! d ! i
                = (if 1 < n_out ?M then mx_add ?M (post1 ! d ! i) (aux1 ! d ! i)
                   else post1 ! d ! i)"
    by blast
  from sr have sr': "rhs1 = [mx_vec ?M (scalar 1)]"
    by (simp add: k1 sq_rootfinder_def)
  from sj have sj': "jac_call (sq_node 1) [scalar 2, scalar 4] = Inr Js1"
    by (simp add: sq_rootfinder_def)
  from sl have sl': "lam1 = mx_horzsplit (sq_node 1)
              (mx_getSolve (sq_node 1) (hd Js1)
                 (mx_neg (sq_node 1) (mx_horzcat (sq_node 1) [mx_vec (sq_node 1) (scalar 1)]))
                 True)"
    by (simp add: sr')
  from so have so': "oracle_reverse (sq_node 1) [scalar 2, scalar 4] [scalar 0]
        [[mx_reshape (sq_node 1) (lam1 ! 0) (1, 1)]] pre1 = Inr post1"
    by (simp add: sq_rootfinder_def k1 z1)
  from sf have sf': "scalar (1 / 4) = post1 ! 0 ! 1"
    by (simp add: sq_rootfinder_def k1)
  have one: "\<exists>Js lam pre post.
      jac_call (sq_node 1) [scalar 2, scalar 4] = Inr Js \<and>
      lam = mx_horzsplit (sq_node 1)
              (mx_getSolve (sq_node 1) (hd Js)
                 (mx_neg (sq_node 1) (mx_horzcat (sq_node 1) [mx_vec (sq_node 1) (scalar 1)]))
                 True) \<and>
      oracle_reverse (sq_node 1) [scalar 2, scalar 4] [scalar 0]
        [[mx_reshape (sq_node 1) (lam ! 0) (1, 1)]] pre = Inr post \<and>
      scalar (1 / 4) = post ! 0 ! 1"
    using sj' sl' so' sf' by blast
  from h1 h2 two g1 g2 one show ?thesis by blast
qed

text \<open>
  Claim C7. After \<open>Rootfinder::reverse\<close> has returned, the adjoint sensitivity of the
  unknown input, \<open>asens[d][iin_]\<close>, is for every direction the value that the caller
  had put there before the call, or a zero matrix of the size of the unknown when that
  slot was empty (or absent, which \<open>resize\<close> turns into the empty \<open>MX()\<close>); the
  oracle's reverse propagation does not decide it. With auxiliary outputs, what their
  own reverse propagation returned is added to every other input slot.
\<close>

theorem reverse_keeps_guess_adjoint:
  assumes "reverse M rf arg res aseed asens0 = Inr asens" and "aseed \<noteq> []"
    and "zero = mx_zeros M (size_in M (iin rf))"
    and "f_arg = arg[iin rf := res ! iout rf]"
    and "f_res = res[iout rf := zero]"
    and "f_aseed = map (\<lambda>d. map (\<lambda>i. if i = iout rf then zero else aseed ! d ! i) [0..<n_out M])
                     [0..<length aseed]"
    and "slot = (\<lambda>d. if d < length asens0 \<and> iin rf < length (asens0 ! d)
                     then asens0 ! d ! iin rf else mx_default M)"
  shows "(\<forall>d<length aseed.
            iin rf < length (asens ! d) \<and>
            asens ! d ! iin rf = (if mx_is_empty M (slot d) then zero else slot d)) \<and>
         (\<exists>aux seeds pre post.
            (1 < n_out M \<longrightarrow> oracle_reverse M f_arg f_res f_aseed [] = Inr aux) \<and>
            oracle_reverse M f_arg f_res seeds pre = Inr post \<and>
            (\<forall>d<length aseed. \<forall>i<n_in M. i \<noteq> iin rf \<longrightarrow>
               asens ! d ! i = (if 1 < n_out M then mx_add M (post ! d ! i) (aux ! d ! i)
                                else post ! d ! i)))"
proof -
  let ?pre = "map (resize (n_in M) (mx_default M)) (resize (length aseed) [] asens0)"
  from reverse_result [OF assms(1-6) refl]
  obtain aux rhs lam post where
    inn: "iin rf < n_in M"
    and br: "if 1 < n_out M
       then oracle_reverse M f_arg f_res f_aseed [] = Inr aux \<and>
            rhs = map (\<lambda>d. mx_vec M (mx_add M (aux ! d ! iin rf) (aseed ! d ! iout rf)))
                    [0..<length aseed]
       else rhs = map (\<lambda>d. mx_vec M (aseed ! d ! iout rf)) [0..<length aseed]"
    and o: "oracle_reverse M f_arg f_res
        (map (\<lambda>d. map (\<lambda>i. if i = iout rf then mx_reshape M (lam ! d) (size_out M i)
                            else mx_zeros M (size_out M i)) [0..<n_out M]) [0..<length aseed])
        ?pre = Inr post"
    and out: "\<forall>d<length aseed.
         iin rf < length (asens ! d) \<and>
         asens ! d ! iin rf =
           (if mx_is_empty M (?pre ! d ! iin rf) then zero else ?pre ! d ! iin rf) \<and>
         (\<forall>i<n_in M. i \<noteq> iin rf \<longrightarrow>
            asens ! d ! i = (if 1 < n_out M then mx_add M (post ! d ! i) (aux ! d ! i)
                             else post ! d ! i))"
    by blast
  have pre: "?pre ! d ! iin rf = slot d" if "d < length aseed" for d
    using that inn by (simp add: resize_nth assms(7))
  have first: "\<forall>d<length aseed.
            iin rf < length (asens ! d) \<and>
            asens ! d ! iin rf = (if mx_is_empty M (slot d) then zero else slot d)"
    using out pre by simp
  have aux: "1 < n_out M \<longrightarrow> oracle_reverse M f_arg f_res f_aseed [] = Inr aux"
    using br by simp
  from first aux o out show ?thesis by blast
qed

theorem reverse_keeps_guess_adjoint_witness:
  "reverse (sq_node 2) sq_rootfinder [scalar 7, scalar 4] [scalar 2, scalar 6]
     [[scalar 0, scalar 1]] [[scalar 9, scalar 3]] = Inr [[scalar 9, scalar (5 / 4)]] \<and>
   [[scalar 0, scalar 1]] \<noteq> [] \<and>
   [[scalar 9, scalar (5 / 4)]] ! 0 ! iin sq_rootfinder = [[scalar 9, scalar 3]] ! 0 ! iin sq_rootfinder \<and>
   (\<exists>aux seeds pre post.
      oracle_reverse (sq_node 2) [scalar 2, scalar 4] [scalar 0, scalar 6]
        [[scalar 0, scalar 1]] [] = Inr aux \<and>
      oracle_reverse (sq_node 2) [scalar 2, scalar 4] [scalar 0, scalar 6] seeds pre = Inr post \<and>
      scalar (5 / 4) = mx_add (sq_node 2) (post ! 0 ! 1) (aux ! 0 ! 1))"
proof -
  have h1: "reverse (sq_node 2) sq_rootfinder [scalar 7, scalar 4] [scalar 2, scalar 6]
     [[scalar 0, scalar 1]] [[scalar 9, scalar 3]] = Inr [[scalar 9, scalar (5 / 4)]]"
    by code_simp
  have h2: "[[scalar 0, scalar 1]] \<noteq> []"
    by simp
  have z: "mx_zeros (sq_node 2) (size_in (sq_node 2) (iin sq_rootfinder)) = scalar 0"
    by (simp add: sq_node_def scalar_def)
  have k: "n_out (sq_node 2) = 2" "n_in (sq_node 2) = 2"
    by (simp_all add: sq_node_def)
  have u: "[0..<2] = [0, Suc 0]"
    by (simp add: upt_rec)
  have e: "\<not> mx_is_empty (sq_node 2) (scalar 9)"
    by (simp add: sq_node_def scalar_def)
  from reverse_keeps_guess_adjoint [OF h1 h2 refl refl refl refl refl]
  obtain aux seeds pre post where
    g: "\<forall>d<length [[scalar 0, scalar 1]].
          iin sq_rootfinder < length ([[scalar 9, scalar (5 / 4)]] ! d) \<and>
          [[scalar 9, scalar (5 / 4)]] ! d ! iin sq_rootfinder =
            (if mx_is_empty (sq_node 2)
                  (if d < length [[scalar 9, scalar 3]] \<and>
                      iin sq_rootfinder < length ([[scalar 9, scalar 3]] ! d)
                   then [[scalar 9, scalar 3]] ! d ! iin sq_rootfinder
                   else mx_default (sq_node 2))
             then scalar 0
             else if d < length [[scalar 9, scalar 3]] \<and>
                     iin sq_rootfinder < length ([[scalar 9, scalar 3]] ! d)
                  then [[scalar 9, scalar 3]] ! d ! iin sq_rootfinder
                  else mx_default (sq_node 2))"
    and a: "oracle_reverse (sq_node 2)
          ([scalar 7, scalar 4][iin sq_rootfinder := [scalar 2, scalar 6] ! iout sq_rootfinder])
          ([scalar 2, scalar 6][iout sq_rootfinder := scalar 0])
          (map (\<lambda>d. map (\<lambda>i. if i = iout sq_rootfinder then scalar 0
                               else [[scalar 0, scalar 1]] ! d ! i) [0, Suc 0])
             [0..<length [[scalar 0, scalar 1]]]) [] = Inr aux"
    and o: "oracle_reverse (sq_node 2)
          ([scalar 7, scalar 4][iin sq_rootfinder := [scalar 2, scalar 6] ! iout sq_rootfinder])
          ([scalar 2, scalar 6][iout sq_rootfinder := scalar 0]) seeds pre = Inr post"
    and f: "\<forall>d<length [[scalar 0, scalar 1]]. \<forall>i<2. i \<noteq> iin sq_rootfinder \<longrightarrow>
              [[scalar 9, scalar (5 / 4)]] ! d ! i
                = mx_add (sq_node 2) (post ! d ! i) (aux ! d ! i)"
    unfolding z k u by (auto split: if_splits)
  from g have g': "[[scalar 9, scalar (5 / 4)]] ! 0 ! iin sq_rootfinder
                     = [[scalar 9, scalar 3]] ! 0 ! iin sq_rootfinder"
    by (simp add: sq_rootfinder_def)
  from a have a': "oracle_reverse (sq_node 2) [scalar 2, scalar 4] [scalar 0, scalar 6]
        [[scalar 0, scalar 1]] [] = Inr aux"
    by (simp add: sq_rootfinder_def)
  from o have o': "oracle_reverse (sq_node 2) [scalar 2, scalar 4] [scalar 0, scalar 6]
        seeds pre = Inr post"
    by (simp add: sq_rootfinder_def)
  from f have f': "scalar (5 / 4) = mx_add (sq_node 2) (post ! 0 ! 1) (aux ! 0 ! 1)"
    by (simp add: sq_rootfinder_def)
  from h1 h2 g' a' o' f' show ?thesis by blast
qed

section \<open>Calls without seeds\<close>

text \<open>
  Claim C10. With an empty list of forward seeds \<open>Rootfinder::forward\<close>, and with an
  empty list of adjoint seeds \<open>Rootfinder::reverse\<close>, returns at once with an empty
  list of sensitivities. No collaborator is consulted: the result is the same for every
  oracle, Jacobian function and solver, also for those that raise on every call.
\<close>

theorem no_seeds_quick_return:
  "forward M rf arg res [] fsens0 = Inr [] \<and> reverse M rf arg res [] asens0 = Inr []"
  by (simp add: forward_def reverse_def resize_def)

end
